theory Spec2Isabelle
  imports Main
begin

chapter \<open>The model\<close>

section \<open>The request queue (class RequestQueue of clients/twitter/base.ts)\<close>

text \<open>
  A request is an asynchronous operation of the caller. It is named by a number; what its
  successive invocations do is given by the environment: \<open>env r n\<close> is how the
  invocation number \<open>n\<close> of request \<open>r\<close> settles (it returns a value or it throws).
  Every invocation settles: a request that stays pending for ever, which would stop the
  queue for ever, is not part of the model. The requests of one queue return values of
  one type.
\<close>

datatype 'a outcome = Returns 'a | Throws string

type_synonym 'a remote = "nat \<Rightarrow> nat \<Rightarrow> 'a outcome"

text \<open>
  The queue holds the closures that \<open>add\<close> builds: \<open>Wrapper r p\<close> is the closure around
  request \<open>r\<close> whose \<open>resolve\<close> and \<open>reject\<close> belong to promise \<open>p\<close>.
\<close>

datatype thunk = Wrapper nat nat

fun thunk_request :: "thunk \<Rightarrow> nat" where
  "thunk_request (Wrapper r p) = r"

fun thunk_promise :: "thunk \<Rightarrow> nat" where
  "thunk_promise (Wrapper r p) = p"

text \<open>
  An activation of \<open>processQueue\<close> is suspended at one of its three \<open>await\<close>s: on the
  request it took from the queue (with the number of that invocation), on
  \<open>exponentialBackoff\<close>, or on \<open>randomDelay\<close>.
\<close>

datatype wstate = AwaitRequest thunk nat | AwaitBackoff | AwaitRandomDelay

datatype 'a event = Executed nat "'a outcome" | BackoffSleep nat

record 'a qstate =
  queue :: "thunk list"
  processing :: bool
  workers :: "wstate list"
  calls :: "nat \<Rightarrow> nat"
  promises :: "'a outcome option list"
  trace :: "'a event list"

definition init :: "'a qstate" where
  "init = \<lparr>queue = [], processing = False, workers = [], calls = (\<lambda>r. 0),
            promises = [], trace = []\<rparr>"

text \<open>\<open>resolve\<close> and \<open>reject\<close> of a promise: only the first of them has an effect.\<close>

definition settle :: "nat \<Rightarrow> 'a outcome \<Rightarrow> 'a qstate \<Rightarrow> 'a qstate" where
  "settle p out s =
     (if p < length (promises s) \<and> promises s ! p = None
      then s\<lparr>promises := (promises s)[p := Some out]\<rparr> else s)"

text \<open>Calling a closure of the queue calls its request: the invocation gets its number.\<close>

definition invoke :: "thunk \<Rightarrow> 'a qstate \<Rightarrow> wstate \<times> 'a qstate" where
  "invoke t s =
     (let r = thunk_request t
      in (AwaitRequest t (calls s r), s\<lparr>calls := (calls s)(r := Suc (calls s r))\<rparr>))"

text \<open>
  The closure of \<open>add\<close>, once its request has settled:
  \<^verbatim>\<open>try { const result = await request(); resolve(result); } catch (error) { reject(error); }\<close>
  The first component is the error the closure itself throws, if any.
\<close>

definition complete :: "'a remote \<Rightarrow> thunk \<Rightarrow> nat \<Rightarrow> 'a qstate \<Rightarrow> string option \<times> 'a qstate" where
  "complete env t n s =
     (let r = thunk_request t; p = thunk_promise t;
          s1 = s\<lparr>trace := trace s @ [Executed r (env r n)]\<rparr>
      in case env r n of
           Returns v \<Rightarrow> (None, settle p (Returns v) s1)
         | Throws e \<Rightarrow> (None, settle p (Throws e) s1))"

text \<open>
  \<open>processQueue\<close> from the head of its \<open>while\<close> loop to the next \<open>await\<close>, or to its end
  (\<open>None\<close>: the activation has returned).
\<close>

definition loop_head :: "'a qstate \<Rightarrow> wstate option \<times> 'a qstate" where
  "loop_head s =
     (case queue s of
        [] \<Rightarrow> (None, s\<lparr>processing := False\<rparr>)
      | t # q \<Rightarrow> (let (w, s') = invoke t (s\<lparr>queue := q\<rparr>) in (Some w, s')))"

definition exponentialBackoff :: "nat \<Rightarrow> nat" where
  "exponentialBackoff retryCount = 2 ^ retryCount * 1000"

text \<open>An activation of \<open>processQueue\<close> resumes when what it awaits has settled.\<close>

fun resume :: "'a remote \<Rightarrow> wstate \<Rightarrow> 'a qstate \<Rightarrow> wstate option \<times> 'a qstate" where
  "resume env (AwaitRequest t n) s =
     (case complete env t n s of
        (None, s') \<Rightarrow> (Some AwaitRandomDelay, s')
      | (Some e, s') \<Rightarrow>
          (let s'' = s'\<lparr>queue := t # queue s'\<rparr>
           in (Some AwaitBackoff,
               s''\<lparr>trace := trace s'' @ [BackoffSleep (exponentialBackoff (length (queue s'')))]\<rparr>)))"
| "resume env AwaitBackoff s = (Some AwaitRandomDelay, s)"
| "resume env AwaitRandomDelay s = loop_head s"

definition processQueue :: "'a qstate \<Rightarrow> 'a qstate" where
  "processQueue s =
     (if processing s \<or> queue s = [] then s
      else case loop_head (s\<lparr>processing := True\<rparr>) of
             (None, s') \<Rightarrow> s'
           | (Some w, s') \<Rightarrow> s'\<lparr>workers := workers s' @ [w]\<rparr>)"

definition add :: "nat \<Rightarrow> 'a qstate \<Rightarrow> 'a qstate" where
  "add r s =
     processQueue (s\<lparr>promises := promises s @ [None],
                     queue := queue s @ [Wrapper r (length (promises s))]\<rparr>)"

text \<open>
  What happens to a queue: a caller submits a request, or what the activation number \<open>i\<close>
  awaits settles.
\<close>

datatype action = Add nat | Settle nat

fun step :: "'a remote \<Rightarrow> action \<Rightarrow> 'a qstate \<Rightarrow> 'a qstate" where
  "step env (Add r) s = add r s"
| "step env (Settle i) s =
     (if i < length (workers s) then
        (case resume env (workers s ! i) s of
           (Some w, s') \<Rightarrow> s'\<lparr>workers := (workers s')[i := w]\<rparr>
         | (None, s') \<Rightarrow> s'\<lparr>workers := take i (workers s') @ drop (Suc i) (workers s')\<rparr>)
      else s)"

fun run :: "'a remote \<Rightarrow> action list \<Rightarrow> 'a qstate \<Rightarrow> 'a qstate" where
  "run env [] s = s"
| "run env (a # as) s = run env as (step env a s)"

fun submitted :: "action list \<Rightarrow> nat list" where
  "submitted [] = []"
| "submitted (Add r # as) = r # submitted as"
| "submitted (Settle i # as) = submitted as"

fun executed :: "'a event list \<Rightarrow> nat list" where
  "executed [] = []"
| "executed (Executed r out # es) = r # executed es"
| "executed (BackoffSleep d # es) = executed es"

fun delivered :: "'a event list \<Rightarrow> 'a outcome option list" where
  "delivered [] = []"
| "delivered (Executed r out # es) = Some out # delivered es"
| "delivered (BackoffSleep d # es) = delivered es"

fun in_flight :: "wstate list \<Rightarrow> thunk list" where
  "in_flight [] = []"
| "in_flight (AwaitRequest t n # ws) = t # in_flight ws"
| "in_flight (w # ws) = in_flight ws"

text \<open>Letting everything that is awaited settle, long enough for the queue to empty.\<close>

definition drain :: "'a remote \<Rightarrow> 'a qstate \<Rightarrow> 'a qstate" where
  "drain env s = run env (replicate (2 * length (queue s) + 2) (Settle 0)) s"

text \<open>
  The promise that \<open>add r\<close> returns, once the queue has been left to run: how it has
  settled, or \<open>None\<close> while it is pending.
\<close>

definition await_add :: "'a remote \<Rightarrow> nat \<Rightarrow> 'a qstate \<Rightarrow> 'a outcome option" where
  "await_add env r s = promises (drain env (add r s)) ! length (promises s)"

text \<open>
  The shape of the states of a queue to which the requests \<open>adds\<close> have been submitted, in
  this order: what has run, what is running and what waits make up \<open>adds\<close>, and the
  promises are those of the submissions, settled for what has run.
\<close>

definition qinv :: "nat list \<Rightarrow> 'a qstate \<Rightarrow> bool" where
  "qinv adds s \<longleftrightarrow>
     ((workers s = [] \<and> \<not> processing s \<and> queue s = []) \<or>
      (\<exists>w. workers s = [w] \<and> processing s)) \<and>
     executed (trace s) @ map thunk_request (in_flight (workers s) @ queue s) = adds \<and>
     map thunk_promise (in_flight (workers s) @ queue s) =
       [length (executed (trace s)) ..< length (promises s)] \<and>
     promises s = delivered (trace s) @ replicate (length (in_flight (workers s) @ queue s)) None"

text \<open>How many times something awaited has to settle before the queue is idle.\<close>

fun remaining :: "'a qstate \<Rightarrow> nat" where
  "remaining s =
     (case workers s of
        [] \<Rightarrow> 0
      | AwaitRandomDelay # ws \<Rightarrow> 2 * length (queue s) + 1
      | w # ws \<Rightarrow> 2 * length (queue s) + 2)"

text \<open>
  Three requests: number 0 and number 2 return, number 1 throws when it is first invoked
  and returns at every later invocation.
\<close>

definition abc :: "string remote" where
  "abc r n = (if r = 0 then Returns ''a''
              else if r = 1 then (if n = 0 then Throws ''boom'' else Returns ''b'')
              else Returns ''c'')"

section \<open>The tweet cache (ClientBase.cacheTweet and getCachedTweet)\<close>

text \<open>
  The fields of a \<open>Tweet\<close> that the client reads (\<open>id\<close> and \<open>text\<close> are written \<open>tid\<close>
  and \<open>ttext\<close>). A field that the code tests for absence is an option.
\<close>

record tweet =
  tid :: string
  conversationId :: "string option"
  userId :: string
  username :: string
  name :: string
  ttext :: string
  permanentUrl :: string
  inReplyToStatusId :: "string option"
  timestamp :: int

text \<open>
  An absolute, normalised path is the list of its components. \<open>path.join\<close> joins its
  arguments with a slash and normalises the result: empty and \<open>.\<close> components vanish, a
  \<open>..\<close> component removes the one before it (the parent of the root is the root).
\<close>

type_synonym path = "string list"

fun split_path :: "string \<Rightarrow> string list" where
  "split_path [] = [[]]"
| "split_path (c # cs) =
     (if c = CHR ''/'' then [] # split_path cs
      else case split_path cs of
             [] \<Rightarrow> [[c]]
           | seg # segs \<Rightarrow> (c # seg) # segs)"

fun resolve :: "string list \<Rightarrow> string list \<Rightarrow> path" where
  "resolve acc [] = rev acc"
| "resolve acc (c # cs) =
     (if c = [] \<or> c = ''.'' then resolve acc cs
      else if c = ''..'' then resolve (tl acc) cs
      else resolve (c # acc) cs)"

definition path_join :: "path \<Rightarrow> string list \<Rightarrow> path" where
  "path_join base segments = resolve (rev base) (concat (map split_path segments))"

definition path_dirname :: "path \<Rightarrow> path" where
  "path_dirname p = butlast p"

text \<open>
  The durable tier: the files (each holds an item, as \<open>JSON.stringify\<close> writes it and
  \<open>JSON.parse\<close> reads it back) and the directories. Which operations of the file system
  fail, and with which error, is given by the environment.
\<close>

record filesystem =
  files :: "(path \<times> tweet) list"
  dirs :: "path set"

record faults =
  mkdir_error :: "path \<Rightarrow> string option"
  write_error :: "path \<Rightarrow> string option"
  read_error :: "path \<Rightarrow> string option"

fun ancestors :: "path \<Rightarrow> path list" where
  "ancestors [] = [[]]"
| "ancestors (c # cs) = [] # map ((#) c) (ancestors cs)"

text \<open>\<open>fs.promises.mkdir(d, { recursive: true })\<close>\<close>

definition mkdir_recursive :: "faults \<Rightarrow> path \<Rightarrow> filesystem \<Rightarrow> string + filesystem" where
  "mkdir_recursive io d fs =
     (case mkdir_error io d of
        Some e \<Rightarrow> Inl e
      | None \<Rightarrow> Inr (fs\<lparr>dirs := dirs fs \<union> set (ancestors d)\<rparr>))"

fun update_file :: "path \<Rightarrow> tweet \<Rightarrow> (path \<times> tweet) list \<Rightarrow> (path \<times> tweet) list" where
  "update_file p c [] = [(p, c)]"
| "update_file p c ((q, d) # fs) = (if q = p then (p, c) # fs else (q, d) # update_file p c fs)"

definition writeFile :: "faults \<Rightarrow> path \<Rightarrow> tweet \<Rightarrow> filesystem \<Rightarrow> string + filesystem" where
  "writeFile io p c fs =
     (case write_error io p of
        Some e \<Rightarrow> Inl e
      | None \<Rightarrow>
          if path_dirname p \<in> dirs fs then Inr (fs\<lparr>files := update_file p c (files fs)\<rparr>)
          else Inl ''ENOENT'')"

definition readFile :: "faults \<Rightarrow> path \<Rightarrow> filesystem \<Rightarrow> string + tweet" where
  "readFile io p fs =
     (case read_error io p of
        Some e \<Rightarrow> Inl e
      | None \<Rightarrow> (case map_of (files fs) p of None \<Rightarrow> Inl ''ENOENT'' | Some c \<Rightarrow> Inr c))"

text \<open>
  \<open>glob\<close>: the files whose path matches the pattern, component by component; the
  component \<open>*\<close> matches every name that does not start with a dot, every other
  component of the pattern matches itself. The files are listed in the order of the
  file system.
\<close>

definition glob_component :: "string \<Rightarrow> string \<Rightarrow> bool" where
  "glob_component pat c \<longleftrightarrow> (if pat = ''*'' then c \<noteq> [] \<and> hd c \<noteq> CHR ''.'' else pat = c)"

definition glob :: "path \<Rightarrow> filesystem \<Rightarrow> path list" where
  "glob pattern fs = filter (list_all2 glob_component pattern) (map fst (files fs))"

text \<open>
  A client: the in-memory tier \<open>tweetCache\<close>, the durable tier, and what it has logged
  as warnings. \<open>dir\<close> below is \<open>__dirname\<close>, the directory of the module.
\<close>

record cstate =
  tweetCache :: "string \<rightharpoonup> tweet"
  disk :: filesystem
  warnings :: "string list"

text \<open>
  \<open>cacheTweet\<close>: the error it throws, if any, and the state it leaves. \<open>path.join\<close> throws
  a \<open>TypeError\<close> on an argument that is not a string.
\<close>

definition cacheTweet :: "faults \<Rightarrow> path \<Rightarrow> tweet option \<Rightarrow> cstate \<Rightarrow> string option \<times> cstate" where
  "cacheTweet io dir item s =
     (case item of
        None \<Rightarrow> (None, s\<lparr>warnings := warnings s @ [''Tweet is undefined, skipping cache'']\<rparr>)
      | Some tweet \<Rightarrow>
          (case conversationId tweet of
             None \<Rightarrow> (Some ''TypeError'', s)
           | Some conv \<Rightarrow>
               (let cacheDir = path_join dir [''../../../tweetcache'', conv, tid tweet @ ''.json'']
                in case mkdir_recursive io (path_dirname cacheDir) (disk s) of
                     Inl e \<Rightarrow> (Some e, s)
                   | Inr d1 \<Rightarrow>
                       (case writeFile io cacheDir tweet d1 of
                          Inl e \<Rightarrow> (Some e, s\<lparr>disk := d1\<rparr>)
                        | Inr d2 \<Rightarrow>
                            (None, s\<lparr>disk := d2,
                                     tweetCache := (tweetCache s)(tid tweet \<mapsto> tweet)\<rparr>)))))"

text \<open>\<open>getCachedTweet\<close>: the error it throws or the item it returns, if any, and the state.\<close>

definition getCachedTweet ::
  "faults \<Rightarrow> path \<Rightarrow> string \<Rightarrow> cstate \<Rightarrow> (string + tweet option) \<times> cstate" where
  "getCachedTweet io dir tweetId s =
     (case tweetCache s tweetId of
        Some tweet \<Rightarrow> (Inr (Some tweet), s)
      | None \<Rightarrow>
          (case glob (path_join dir [''tweetcache'', ''*'', tweetId @ ''.json'']) (disk s) of
             [] \<Rightarrow> (Inr None, s)
           | file # others \<Rightarrow>
               (case readFile io file (disk s) of
                  Inl e \<Rightarrow> (Inl e, s)
                | Inr tweet \<Rightarrow>
                    (Inr (Some tweet), s\<lparr>tweetCache := (tweetCache s)(tid tweet \<mapsto> tweet)\<rparr>))))"

text \<open>A restart of the process: the in-memory tier is empty, the durable tier is intact.\<close>

definition restart :: "cstate \<Rightarrow> cstate" where
  "restart s = s\<lparr>tweetCache := Map.empty\<rparr>"

text \<open>A name that \<open>path.join\<close> keeps as one component.\<close>

definition plain :: "string \<Rightarrow> bool" where
  "plain c \<longleftrightarrow> c \<noteq> [] \<and> c \<noteq> ''.'' \<and> c \<noteq> ''..'' \<and> CHR ''/'' \<notin> set c"

text \<open>Sample data: no fault, a client that has cached nothing, an item of conversation 10.\<close>

definition no_faults :: faults where
  "no_faults = \<lparr>mkdir_error = (\<lambda>p. None), write_error = (\<lambda>p. None), read_error = (\<lambda>p. None)\<rparr>"

definition fresh_client :: cstate where
  "fresh_client = \<lparr>tweetCache = Map.empty, disk = \<lparr>files = [], dirs = {[]}\<rparr>, warnings = []\<rparr>"

definition module_dir :: path where
  "module_dir = [''app'', ''core'', ''src'', ''clients'', ''twitter'']"

definition tweet1 :: tweet where
  "tweet1 = \<lparr>tid = ''1'', conversationId = Some ''10'', userId = ''u1'', username = ''alice'',
             name = ''Alice'', ttext = ''hello'', permanentUrl = ''https://x.test/1'',
             inReplyToStatusId = None, timestamp = 1700000000\<rparr>"

section \<open>The home timeline (ClientBase.fetchHomeTimeline)\<close>

text \<open>
  An entry of the remote timeline, in its two wire shapes: the flattened fields
  (\<open>raw_id\<close> for \<open>tweet.id\<close>, \<open>raw_name\<close> for \<open>tweet.name\<close>, and so on) and the
  nested ones: \<open>rest_id\<close> and the fields under \<open>legacy\<close> and \<open>core\<close>. A field that is
  absent (\<open>undefined\<close> or \<open>null\<close>) is \<open>None\<close>.
\<close>

record media_item =
  media_type :: string
  media_url :: string

record raw_entities =
  ent_hashtags :: "string list option"
  user_mentions :: "string list option"
  ent_urls :: "string list option"
  ent_media :: "media_item list option"

record raw_legacy =
  full_text :: "string option"
  in_reply_to_status_id_str :: "string option"
  created_at :: "string option"
  user_id_str :: "string option"
  conversation_id_str :: "string option"
  entities :: "raw_entities option"

record raw_user_legacy =
  legacy_name :: "string option"
  screen_name :: "string option"

record raw_user_result =
  user_legacy :: "raw_user_legacy option"

record raw_user_results =
  result :: "raw_user_result option"

record raw_core =
  user_results :: "raw_user_results option"

record raw_tweet =
  typename :: "string option"
  rest_id :: "string option"
  raw_id :: "string option"
  raw_name :: "string option"
  raw_username :: "string option"
  raw_text :: "string option"
  raw_inReplyToStatusId :: "string option"
  raw_createdAt :: "string option"
  raw_userId :: "string option"
  raw_conversationId :: "string option"
  raw_hashtags :: "string list option"
  raw_mentions :: "string list option"
  raw_photos :: "media_item list option"
  raw_urls :: "string list option"
  raw_videos :: "media_item list option"
  core :: "raw_core option"
  legacy :: "raw_legacy option"

text \<open>The object that the normaliser builds.\<close>

record timeline_tweet =
  o_id :: "string option"
  o_name :: "string option"
  o_username :: "string option"
  o_text :: "string option"
  o_inReplyToStatusId :: "string option"
  o_createdAt :: "string option"
  o_userId :: "string option"
  o_conversationId :: "string option"
  o_hashtags :: "string list option"
  o_mentions :: "string list option"
  o_photos :: "media_item list"
  o_thread :: "string list"
  o_urls :: "string list option"
  o_videos :: "media_item list"

text \<open>
  Reading a property of \<open>undefined\<close> throws a \<open>TypeError\<close>; \<open>?.\<close> yields \<open>undefined\<close>
  instead. \<open>a ?? b\<close> evaluates \<open>b\<close> only when \<open>a\<close> is absent.
\<close>

definition nullish :: "'a option \<Rightarrow> (string + 'a option) \<Rightarrow> string + 'a option" where
  "nullish a b = (case a of Some v \<Rightarrow> Inr (Some v) | None \<Rightarrow> b)"

text \<open>\<open>tweet.legacy?.f\<close>\<close>

definition legacy_field :: "(raw_legacy \<Rightarrow> 'a option) \<Rightarrow> raw_tweet \<Rightarrow> string + 'a option" where
  "legacy_field f t = (case legacy t of None \<Rightarrow> Inr None | Some l \<Rightarrow> Inr (f l))"

text \<open>\<open>tweet.legacy?.entities.f\<close>\<close>

definition legacy_entity :: "(raw_entities \<Rightarrow> 'a option) \<Rightarrow> raw_tweet \<Rightarrow> string + 'a option" where
  "legacy_entity f t =
     (case legacy t of
        None \<Rightarrow> Inr None
      | Some l \<Rightarrow> (case entities l of None \<Rightarrow> Inl ''TypeError'' | Some e \<Rightarrow> Inr (f e)))"

text \<open>\<open>tweet.core?.user_results?.result?.legacy.f\<close>\<close>

definition legacy_user :: "(raw_user_legacy \<Rightarrow> 'a option) \<Rightarrow> raw_tweet \<Rightarrow> string + 'a option" where
  "legacy_user f t =
     (case core t of
        None \<Rightarrow> Inr None
      | Some c \<Rightarrow>
          (case user_results c of
             None \<Rightarrow> Inr None
           | Some u \<Rightarrow>
               (case result u of
                  None \<Rightarrow> Inr None
                | Some r \<Rightarrow>
                    (case user_legacy r of None \<Rightarrow> Inl ''TypeError'' | Some l \<Rightarrow> Inr (f l)))))"

text \<open>\<open>tweet.legacy?.entities.media?.filter((media) => media.type === kind)\<close>\<close>

definition legacy_media :: "string \<Rightarrow> raw_tweet \<Rightarrow> string + media_item list option" where
  "legacy_media kind t =
     (case legacy_entity ent_media t of
        Inl e \<Rightarrow> Inl e
      | Inr None \<Rightarrow> Inr None
      | Inr (Some ms) \<Rightarrow> Inr (Some (filter (\<lambda>m. media_type m = kind) ms)))"

definition or_empty :: "'a list option \<Rightarrow> 'a list" where
  "or_empty a = (case a of Some v \<Rightarrow> v | None \<Rightarrow> [])"

definition and_then :: "string + 'a \<Rightarrow> ('a \<Rightarrow> string + 'b) \<Rightarrow> string + 'b" where
  "and_then r f = (case r of Inl e \<Rightarrow> Inl e | Inr v \<Rightarrow> f v)"

text \<open>The callback of \<open>map\<close>: the fields of the object literal, in their order.\<close>

definition normalize_tweet :: "raw_tweet \<Rightarrow> string + timeline_tweet" where
  "normalize_tweet t =
     and_then (nullish (raw_name t) (legacy_user legacy_name t)) (\<lambda>n.
     and_then (nullish (raw_username t) (legacy_user screen_name t)) (\<lambda>u.
     and_then (nullish (raw_text t) (legacy_field full_text t)) (\<lambda>x.
     and_then (nullish (raw_inReplyToStatusId t) (legacy_field in_reply_to_status_id_str t)) (\<lambda>r.
     and_then (nullish (raw_createdAt t) (legacy_field created_at t)) (\<lambda>c.
     and_then (nullish (raw_userId t) (legacy_field user_id_str t)) (\<lambda>i.
     and_then (nullish (raw_conversationId t) (legacy_field conversation_id_str t)) (\<lambda>v.
     and_then (nullish (raw_hashtags t) (legacy_entity ent_hashtags t)) (\<lambda>h.
     and_then (nullish (raw_mentions t) (legacy_entity user_mentions t)) (\<lambda>m.
     and_then (nullish (raw_photos t) (legacy_media ''photo'' t)) (\<lambda>p.
     and_then (nullish (raw_urls t) (legacy_entity ent_urls t)) (\<lambda>l.
     and_then (nullish (raw_videos t) (legacy_media ''video'' t)) (\<lambda>w.
       Inr \<lparr>o_id = rest_id t, o_name = n, o_username = u, o_text = x,
            o_inReplyToStatusId = r, o_createdAt = c, o_userId = i, o_conversationId = v,
            o_hashtags = h, o_mentions = m, o_photos = or_empty p, o_thread = [],
            o_urls = l, o_videos = or_empty w\<rparr>))))))))))))"

text \<open>\<open>Array.map\<close> with a callback that may throw.\<close>

fun map_result :: "('a \<Rightarrow> string + 'b) \<Rightarrow> 'a list \<Rightarrow> string + 'b list" where
  "map_result f [] = Inr []"
| "map_result f (x # xs) =
     and_then (f x) (\<lambda>y. and_then (map_result f xs) (\<lambda>ys. Inr (y # ys)))"

text \<open>
  \<open>client count\<close> is what \<open>twitterClient.fetchHomeTimeline(count, [])\<close> yields: an error
  or the raw entries.
\<close>

definition fetchHomeTimeline ::
  "(int \<Rightarrow> string + raw_tweet list) \<Rightarrow> int \<Rightarrow> string + timeline_tweet list" where
  "fetchHomeTimeline client count =
     and_then (client count) (\<lambda>homeTimeline.
       map_result normalize_tweet
         (filter (\<lambda>t. typename t \<noteq> Some ''TweetWithVisibilityResults'') homeTimeline))"

text \<open>
  Which nested paths of an entry can be read without a \<open>TypeError\<close>: the user path when
  the user result, if present, has a \<open>legacy\<close>; the entities path when \<open>legacy\<close>, if
  present, has \<open>entities\<close>. An entry can be normalised when each of the two paths can be
  read or is not needed, every flattened field that would fall back to it being present.
\<close>

definition user_path_reads :: "raw_tweet \<Rightarrow> bool" where
  "user_path_reads t \<longleftrightarrow>
     (case core t of
        None \<Rightarrow> True
      | Some c \<Rightarrow>
          (case user_results c of
             None \<Rightarrow> True
           | Some u \<Rightarrow> (case result u of None \<Rightarrow> True | Some r \<Rightarrow> user_legacy r \<noteq> None)))"

definition entities_path_reads :: "raw_tweet \<Rightarrow> bool" where
  "entities_path_reads t \<longleftrightarrow>
     (case legacy t of None \<Rightarrow> True | Some l \<Rightarrow> entities l \<noteq> None)"

definition normalizes :: "raw_tweet \<Rightarrow> bool" where
  "normalizes t \<longleftrightarrow>
     ((raw_name t \<noteq> None \<and> raw_username t \<noteq> None) \<or> user_path_reads t) \<and>
     ((raw_hashtags t \<noteq> None \<and> raw_mentions t \<noteq> None \<and> raw_photos t \<noteq> None \<and>
       raw_urls t \<noteq> None \<and> raw_videos t \<noteq> None) \<or> entities_path_reads t)"

text \<open>
  Sample entries: one in the nested shape only; one that also carries a flattened
  identifier, text and name; one that carries every flattened field and whose nested
  shape cannot be read; one with restricted visibility whose nested shape cannot be read.
\<close>

definition nested_entry :: raw_tweet where
  "nested_entry =
     \<lparr>typename = Some ''Tweet'', rest_id = Some ''7'', raw_id = None, raw_name = None,
      raw_username = None, raw_text = None, raw_inReplyToStatusId = None,
      raw_createdAt = None, raw_userId = None, raw_conversationId = None,
      raw_hashtags = None, raw_mentions = None, raw_photos = None,
      raw_urls = None, raw_videos = None,
      core = Some \<lparr>user_results = Some \<lparr>result = Some \<lparr>user_legacy =
               Some \<lparr>legacy_name = Some ''Old Name'', screen_name = Some ''old''\<rparr>\<rparr>\<rparr>\<rparr>,
      legacy = Some \<lparr>full_text = Some ''nested text'', in_reply_to_status_id_str = Some ''5'',
                     created_at = Some ''Mon'', user_id_str = Some ''42'',
                     conversation_id_str = Some ''6'',
                     entities = Some \<lparr>ent_hashtags = Some [''tag''], user_mentions = Some [''bob''],
                                       ent_urls = Some [''https://x.test''],
                                       ent_media = Some [\<lparr>media_type = ''photo'', media_url = ''p''\<rparr>,
                                                         \<lparr>media_type = ''video'', media_url = ''v''\<rparr>]\<rparr>\<rparr>\<rparr>"

definition both_entry :: raw_tweet where
  "both_entry =
     nested_entry\<lparr>raw_id := Some ''99'', raw_text := Some ''flat text'',
                  raw_name := Some ''New Name''\<rparr>"

definition unreadable_legacy :: raw_legacy where
  "unreadable_legacy =
     \<lparr>full_text = Some ''nested text'', in_reply_to_status_id_str = None, created_at = None,
      user_id_str = None, conversation_id_str = None, entities = None\<rparr>"

definition flat_entry :: raw_tweet where
  "flat_entry =
     \<lparr>typename = Some ''Tweet'', rest_id = Some ''8'', raw_id = Some ''8'',
      raw_name = Some ''Carol'', raw_username = Some ''carol'', raw_text = Some ''flat only'',
      raw_inReplyToStatusId = Some ''3'', raw_createdAt = Some ''Tue'', raw_userId = Some ''43'',
      raw_conversationId = Some ''4'', raw_hashtags = Some [''h''], raw_mentions = Some [],
      raw_photos = Some [], raw_urls = Some [], raw_videos = Some [],
      core = Some \<lparr>user_results = Some \<lparr>result = Some \<lparr>user_legacy = None\<rparr>\<rparr>\<rparr>,
      legacy = Some unreadable_legacy\<rparr>"

definition restricted_entry :: raw_tweet where
  "restricted_entry =
     nested_entry\<lparr>typename := Some ''TweetWithVisibilityResults'',
                  legacy := Some unreadable_legacy\<rparr>"

section \<open>Reconciliation (ClientBase.populateTimeline)\<close>

record content =
  c_text :: string
  c_url :: string
  c_source :: string
  c_inReplyTo :: "string option"

record memory =
  m_id :: string
  m_userId :: string
  m_content :: content
  m_agentId :: string
  m_roomId :: string
  m_createdAt :: int

text \<open>
  Modelled from the spec: the durable record store behind \<open>runtime.messageManager\<close>, whose
  code is not among the sources. The spec gives it three operations: persist a record,
  fetch the records of rooms, fetch a record by its identifier. The store is the list of
  its records; \<open>getMemoriesByRoomIds\<close> returns the records of the agent in the rooms.
\<close>

definition getMemoriesByRoomIds :: "string \<Rightarrow> string list \<Rightarrow> memory list \<Rightarrow> memory list" where
  "getMemoriesByRoomIds agent roomIds store =
     filter (\<lambda>m. m_agentId m = agent \<and> m_roomId m \<in> set roomIds) store"

text \<open>Modelled from the spec: the record store's fetch by identifier.\<close>

definition getMemoryById :: "string \<Rightarrow> memory list \<Rightarrow> memory option" where
  "getMemoryById i store = find (\<lambda>m. m_id m = i) store"

text \<open>Modelled from the spec: the record store's persist operation.\<close>

definition createMemory :: "memory \<Rightarrow> memory list \<Rightarrow> memory list" where
  "createMemory m store = store @ [m]"

text \<open>String concatenation turns \<open>undefined\<close> into the text \<open>undefined\<close>.\<close>

definition js_string :: "string option \<Rightarrow> string" where
  "js_string v = (case v of Some s \<Rightarrow> s | None \<Rightarrow> ''undefined'')"

definition truthy :: "string option \<Rightarrow> bool" where
  "truthy v \<longleftrightarrow> (case v of Some s \<Rightarrow> s \<noteq> [] | None \<Rightarrow> False)"

text \<open>
  The record that \<open>populateTimeline\<close> creates for an item. \<open>uuid\<close> is \<open>stringToUuid\<close>, whose
  code is not among the sources: it is a parameter. \<open>me\<close> is \<open>twitterUserId\<close>. The two loops
  differ in the reply link only: the text \<open>suffix\<close> is \<open>"-" + agentId\<close> in the first and
  empty in the second. The calls of \<open>ensureConnection\<close> and \<open>ensureUserExists\<close> act on the
  relationship store, which is not modelled.
\<close>

definition tweet_memory :: "(string \<Rightarrow> string) \<Rightarrow> string \<Rightarrow> string \<Rightarrow> string \<Rightarrow> tweet \<Rightarrow> memory" where
  "tweet_memory uuid agent me suffix tweet =
     \<lparr>m_id = uuid (tid tweet @ ''-'' @ agent),
      m_userId = (if userId tweet = me then agent else uuid (userId tweet)),
      m_content =
        \<lparr>c_text = ttext tweet, c_url = permanentUrl tweet, c_source = ''twitter'',
         c_inReplyTo =
           (if truthy (inReplyToStatusId tweet)
            then Some (uuid (js_string (inReplyToStatusId tweet) @ suffix)) else None)\<rparr>,
      m_agentId = agent,
      m_roomId =
        uuid (case conversationId tweet of Some c \<Rightarrow> c | None \<Rightarrow> ''default-room-'' @ agent),
      m_createdAt = timestamp tweet * 1000\<rparr>"

text \<open>The loop over the missing items of the snapshot, with its \<open>break\<close>.\<close>

fun save_missing ::
  "(string \<Rightarrow> string) \<Rightarrow> string \<Rightarrow> string \<Rightarrow> tweet list \<Rightarrow> memory list \<Rightarrow> memory list" where
  "save_missing uuid agent me [] store = store"
| "save_missing uuid agent me (tweet # tweetsToSave) store =
     (case getMemoryById (uuid (tid tweet @ ''-'' @ agent)) store of
        Some memory \<Rightarrow> store
      | None \<Rightarrow>
          save_missing uuid agent me tweetsToSave
            (createMemory (tweet_memory uuid agent me (''-'' @ agent) tweet) store))"

text \<open>The loop over the new items of a search.\<close>

fun save_new ::
  "(string \<Rightarrow> string) \<Rightarrow> string \<Rightarrow> string \<Rightarrow> tweet list \<Rightarrow> memory list \<Rightarrow> memory list" where
  "save_new uuid agent me [] store = store"
| "save_new uuid agent me (tweet # tweetsToSave) store =
     save_new uuid agent me tweetsToSave (createMemory (tweet_memory uuid agent me [] tweet) store)"

text \<open>
  The second half of \<open>populateTimeline\<close>: \<open>allTweets\<close> are the items that
  \<open>fetchSearchTweets\<close> has returned. The result is the store and the snapshot file.
\<close>

definition populate_from_search ::
  "(string \<Rightarrow> string) \<Rightarrow> string \<Rightarrow> string \<Rightarrow> tweet list \<Rightarrow> memory list
     \<Rightarrow> memory list \<times> tweet list option" where
  "populate_from_search uuid agent me allTweets store =
     (let tweetUuids = map (\<lambda>i. uuid (i @ ''-'' @ agent)) (remdups (map tid allTweets));
          existingMemories = getMemoriesByRoomIds agent tweetUuids store;
          existingMemoryIds = set (map m_roomId existingMemories);
          tweetsToSave =
            filter (\<lambda>tweet. uuid (tid tweet @ ''-'' @ agent) \<notin> existingMemoryIds) allTweets
      in (save_new uuid agent me tweetsToSave store, Some allTweets))"

text \<open>
  \<open>populateTimeline\<close>: \<open>cacheFile\<close> is the content of \<open>timeline_cache.json\<close> when the file
  exists.
\<close>

definition populateTimeline ::
  "(string \<Rightarrow> string) \<Rightarrow> string \<Rightarrow> string \<Rightarrow> tweet list option \<Rightarrow> tweet list \<Rightarrow> memory list
     \<Rightarrow> memory list \<times> tweet list option" where
  "populateTimeline uuid agent me cacheFile search store =
     (case cacheFile of
        None \<Rightarrow> populate_from_search uuid agent me search store
      | Some cachedResults \<Rightarrow>
          (let existingMemories =
                 getMemoriesByRoomIds agent
                   (map (\<lambda>tweet. uuid (js_string (conversationId tweet) @ ''-'' @ agent))
                      cachedResults) store;
               existingMemoryIds = set (map m_id existingMemories);
               someCachedTweetsExist = list_ex (\<lambda>tweet. tid tweet \<in> existingMemoryIds) cachedResults
           in if someCachedTweetsExist
              then (let tweetsToSave =
                          filter (\<lambda>tweet. tid tweet \<notin> existingMemoryIds) cachedResults
                    in (save_missing uuid agent me tweetsToSave store, Some cachedResults))
              else populate_from_search uuid agent me search store))"

text \<open>
  Sample data: a one-to-one stand-in for \<open>stringToUuid\<close>, a second item, and the record of
  the first item as an earlier pass has created it.
\<close>

definition sample_uuid :: "string \<Rightarrow> string" where
  "sample_uuid s = ''uuid:'' @ s"

definition tweet2 :: tweet where
  "tweet2 = \<lparr>tid = ''2'', conversationId = Some ''20'', userId = ''u2'', username = ''bob'',
             name = ''Bob'', ttext = ''world'', permanentUrl = ''https://x.test/2'',
             inReplyToStatusId = None, timestamp = 1700000060\<rparr>"

definition ingested1 :: memory where
  "ingested1 = tweet_memory sample_uuid ''agent'' ''u0'' [] tweet1"

section \<open>Search (ClientBase.fetchSearchTweets)\<close>

record response =
  tweets :: "tweet list"
  next_cursor :: "string option"

definition empty_response :: response where
  "empty_response = \<lparr>tweets = [], next_cursor = None\<rparr>"

text \<open>
  The remote search call, raced against the timer: either the call settles first (it
  returns a response, possibly \<open>undefined\<close>, or it throws), or the timer does, with an empty
  response.
\<close>

datatype 'a raced = SettlesFirst "'a outcome" | TimerFirst

definition race :: "response option raced \<Rightarrow> response option outcome" where
  "race remote =
     (case remote of SettlesFirst out \<Rightarrow> out | TimerFirst \<Rightarrow> Returns (Some empty_response))"

text \<open>
  \<open>fetchSearchTweets\<close> submits the race to the queue as the request \<open>r\<close>; \<open>others\<close> are the
  other requests of the queue and \<open>q\<close> is its state. The result is \<open>None\<close> when the function
  does not return, else the error it throws or the response it returns.
\<close>

definition fetchSearchTweets ::
  "response option remote \<Rightarrow> nat \<Rightarrow> response option raced \<Rightarrow> response option qstate
     \<Rightarrow> (string + response) option" where
  "fetchSearchTweets others r remote q =
     (case await_add (others(r := \<lambda>n. race remote)) r q of
        None \<Rightarrow> None
      | Some (Returns res) \<Rightarrow>
          Some (Inr (case res of Some v \<Rightarrow> v | None \<Rightarrow> empty_response))
      | Some (Throws error) \<Rightarrow> Some (Inr empty_response))"

section \<open>Bootstrap: the account identifier (the asynchronous initialisation of the constructor)\<close>

datatype boot_event =
  LogError string | LogInfo string | GetUserIdByScreenName | PopulateTimeline | OnReady
  | Emit string

text \<open>
  The request that resolves the identifier: it calls the remote side once, and turns an
  error into \<open>null\<close> after logging it. \<open>remote\<close> is how \<open>getUserIdByScreenName\<close> settles.
\<close>

definition get_user_id :: "string option outcome \<Rightarrow> string option outcome \<times> boot_event list" where
  "get_user_id remote =
     (case remote of
        Returns uid \<Rightarrow> (Returns uid, [GetUserIdByScreenName])
      | Throws error \<Rightarrow> (Returns None, [GetUserIdByScreenName, LogError ''Error getting user ID:'']))"

text \<open>
  The initialisation from the resolution of the identifier on. \<open>populate\<close> and \<open>ready\<close> are
  how \<open>populateTimeline\<close> and \<open>onReady\<close> end. The result is \<open>None\<close> when the initialisation
  does not end, else \<open>twitterUserId\<close> and what has happened, in order.
\<close>

definition resolve_identity ::
  "string option remote \<Rightarrow> nat \<Rightarrow> string option outcome \<Rightarrow> unit outcome \<Rightarrow> unit outcome
     \<Rightarrow> string option qstate \<Rightarrow> (string option \<times> boot_event list) option" where
  "resolve_identity others r remote populate ready q =
     (let (out, logged) = get_user_id remote;
          failed = [LogError ''Error during Twitter client initialization:'',
                    Emit ''initializationError'']
      in case await_add (others(r := \<lambda>n. out)) r q of
           None \<Rightarrow> None
         | Some (Throws error) \<Rightarrow> Some (None, logged @ failed)
         | Some (Returns uid) \<Rightarrow>
             if \<not> truthy uid then Some (None, logged @ [LogError ''Failed to get user ID''])
             else
               (case populate of
                  Throws error \<Rightarrow>
                    Some (uid, logged @ [LogInfo ''Twitter user ID:'', PopulateTimeline] @ failed)
                | Returns u \<Rightarrow>
                    (case ready of
                       Throws error \<Rightarrow>
                         Some (uid,
                               logged @ [LogInfo ''Twitter user ID:'', PopulateTimeline, OnReady]
                                 @ failed)
                     | Returns v \<Rightarrow>
                         Some (uid,
                               logged @ [LogInfo ''Twitter user ID:'', PopulateTimeline, OnReady]))))"

text \<open>
  Sample queues: one whose request 0 throws and whose other requests return nothing, one
  whose requests all return nothing.
\<close>

definition busy :: "response option remote" where
  "busy r n = (if r = 0 then Throws ''rate limited'' else Returns None)"

definition quiet :: "string option remote" where
  "quiet r n = Returns None"

chapter \<open>Properties\<close>

section \<open>The request queue\<close>

lemma executed_append: "executed (xs @ ys) = executed xs @ executed ys"
  by (induction xs rule: executed.induct) auto

lemma delivered_append: "delivered (xs @ ys) = delivered xs @ delivered ys"
  by (induction xs rule: delivered.induct) auto

lemma length_delivered: "length (delivered xs) = length (executed xs)"
  by (induction xs rule: executed.induct) auto

lemma qinv_init: "qinv [] init"
  by (simp add: qinv_def init_def)

lemma qinv_length: "qinv adds s \<Longrightarrow> length (executed (trace s)) \<le> length (promises s)"
  unfolding qinv_def
  by (metis length_append length_delivered le_add1)

lemma qinv_add:
  assumes "qinv adds s" shows "qinv (adds @ [r]) (add r s)"
proof -
  have len: "length (executed (trace s)) \<le> length (promises s)"
    using assms by (rule qinv_length)
  from assms consider
    (idle) "workers s = []" "\<not> processing s" "queue s = []"
    | (busy) w where "workers s = [w]" "processing s"
    unfolding qinv_def by blast
  then show ?thesis
  proof cases
    case idle
    with assms len show ?thesis
      by (auto simp: qinv_def add_def processQueue_def loop_head_def invoke_def Let_def
            replicate_append_same length_delivered)
  next
    case busy
    with assms len show ?thesis
      by (auto simp: qinv_def add_def processQueue_def replicate_append_same length_delivered)
  qed
qed

lemma complete_None: "fst (complete env t n s) = None"
  by (simp add: complete_def Let_def split: outcome.split)

lemma complete_state:
  "snd (complete env t n s) =
     settle (thunk_promise t) (env (thunk_request t) n)
       (s\<lparr>trace := trace s @ [Executed (thunk_request t) (env (thunk_request t) n)]\<rparr>)"
  by (simp add: complete_def Let_def split: outcome.split)

lemma resume_request:
  "resume env (AwaitRequest t n) s =
     (Some AwaitRandomDelay,
      settle (thunk_promise t) (env (thunk_request t) n)
       (s\<lparr>trace := trace s @ [Executed (thunk_request t) (env (thunk_request t) n)]\<rparr>))"
  using complete_None [of env t n s] complete_state [of env t n s]
  by (cases "complete env t n s") auto

lemma settle_pending:
  "promises s = xs @ None # ys \<Longrightarrow> p = length xs \<Longrightarrow>
   settle p out s = s\<lparr>promises := xs @ Some out # ys\<rparr>"
  by (simp add: settle_def)

lemma qinv_settle:
  assumes "qinv adds s" shows "qinv adds (step env (Settle i) s)"
proof (cases "i < length (workers s)")
  case False
  with assms show ?thesis by simp
next
  case True
  with assms obtain w where w: "workers s = [w]" "processing s" "i = 0"
    unfolding qinv_def by auto
  show ?thesis
  proof (cases w)
    case (AwaitRequest t n)
    from assms w AwaitRequest have
      e1: "executed (trace s) @ thunk_request t # map thunk_request (queue s) = adds" and
      e2: "thunk_promise t # map thunk_promise (queue s) =
             [length (executed (trace s)) ..< length (promises s)]" and
      e3: "promises s = delivered (trace s) @ None # replicate (length (queue s)) None"
      unfolding qinv_def by auto
    from e2 [symmetric] have p: "thunk_promise t = length (delivered (trace s))"
      and rest: "map thunk_promise (queue s) =
                   [Suc (length (executed (trace s))) ..< length (promises s)]"
      by (auto simp: upt_eq_Cons_conv length_delivered)
    let ?out = "env (thunk_request t) n"
    let ?s1 = "s\<lparr>trace := trace s @ [Executed (thunk_request t) ?out]\<rparr>"
    have st: "settle (thunk_promise t) ?out ?s1 =
              ?s1\<lparr>promises := delivered (trace s) @ Some ?out # replicate (length (queue s)) None\<rparr>"
      by (rule settle_pending) (use e3 p in auto)
    have lenp: "length (promises s) = Suc (length (executed (trace s)) + length (queue s))"
      by (subst e3) (simp add: length_delivered)
    show ?thesis
      using w AwaitRequest e1 rest [unfolded lenp]
      by (simp add: resume_request st qinv_def executed_append delivered_append length_delivered
               del: resume.simps)
  next
    case AwaitBackoff
    with assms w show ?thesis by (simp add: qinv_def)
  next
    case AwaitRandomDelay
    with assms w show ?thesis
      by (cases "queue s") (auto simp: qinv_def loop_head_def invoke_def Let_def)
  qed
qed

lemma qinv_run: "qinv adds s \<Longrightarrow> qinv (adds @ submitted acts) (run env acts s)"
proof (induction acts arbitrary: adds s)
  case Nil
  then show ?case by simp
next
  case (Cons a acts)
  show ?case
  proof (cases a)
    case (Add r)
    with Cons.IH [OF qinv_add [OF Cons.prems, of r]] show ?thesis by simp
  next
    case (Settle i)
    with Cons.IH [OF qinv_settle [OF Cons.prems, of env i]] show ?thesis by simp
  qed
qed


lemma settle_queue: "queue (settle p out s) = queue s"
  by (simp add: settle_def)

lemma settle_workers: "workers (settle p out s) = workers s"
  by (simp add: settle_def)

lemma remaining_step:
  assumes "qinv adds s" shows "remaining (step env (Settle 0) s) = remaining s - 1"
proof (cases "workers s")
  case Nil
  then show ?thesis by simp
next
  case (Cons w ws)
  with assms have w: "workers s = [w]" unfolding qinv_def by auto
  show ?thesis
  proof (cases w)
    case (AwaitRequest t n)
    with w show ?thesis
      by (simp add: resume_request settle_queue settle_workers del: resume.simps)
  next
    case AwaitBackoff
    with w show ?thesis by simp
  next
    case AwaitRandomDelay
    with w show ?thesis
      by (cases "queue s") (auto simp: loop_head_def invoke_def Let_def)
  qed
qed

lemma remaining_run:
  "qinv adds s \<Longrightarrow> remaining (run env (replicate n (Settle 0)) s) = remaining s - n"
proof (induction n arbitrary: s)
  case 0
  then show ?case by simp
next
  case (Suc n)
  from Suc.IH [OF qinv_settle [OF Suc.prems, of env 0]] remaining_step [OF Suc.prems, of env]
  show ?case by simp
qed

lemma remaining_bound: "remaining s \<le> 2 * length (queue s) + 2"
  by (simp split: list.split wstate.split)

lemma submitted_settles: "submitted (replicate n (Settle i)) = []"
  by (induction n) auto

lemma qinv_drain: "qinv adds s \<Longrightarrow> qinv adds (drain env s)"
  using qinv_run [of adds s "replicate (2 * length (queue s) + 2) (Settle 0)" env]
  by (simp add: drain_def submitted_settles)

lemma drained:
  assumes "qinv adds s"
  shows "workers (drain env s) = []"
proof -
  have "remaining (drain env s) = 0"
    using remaining_run [OF assms, of env "2 * length (queue s) + 2"] remaining_bound [of s]
    by (simp add: drain_def del: remaining.simps)
  then show ?thesis
    by (simp split: list.splits wstate.splits)
qed

lemma qinv_reachable: "qinv (submitted acts) (run env acts init)"
  using qinv_run [OF qinv_init, of acts env] by simp

lemma trace_settle: "trace (settle p out s) = trace s"
  by (simp add: settle_def)

lemma trace_add: "trace (add r s) = trace s"
  by (simp add: add_def processQueue_def loop_head_def invoke_def Let_def split: list.split)

lemma trace_step:
  "trace (step env a s) = trace s \<or> (\<exists>r out. trace (step env a s) = trace s @ [Executed r out])"
proof (cases a)
  case (Add r)
  then show ?thesis by (simp add: trace_add)
next
  case (Settle i)
  show ?thesis
  proof (cases "i < length (workers s)")
    case False
    with Settle show ?thesis by simp
  next
    case True
    show ?thesis
    proof (cases "workers s ! i")
      case (AwaitRequest t n)
      with Settle True show ?thesis
        by (simp add: resume_request trace_settle del: resume.simps)
    next
      case AwaitBackoff
      with Settle True show ?thesis by simp
    next
      case AwaitRandomDelay
      with Settle True show ?thesis
        by (simp add: loop_head_def invoke_def Let_def split: list.split)
    qed
  qed
qed

lemma no_backoff_run:
  "\<forall>d. BackoffSleep d \<notin> set (trace s) \<Longrightarrow> BackoffSleep d \<notin> set (trace (run env acts s))"
proof (induction acts arbitrary: s)
  case Nil
  then show ?case by simp
next
  case (Cons a acts)
  from trace_step [of env a s] Cons.prems
  have "\<forall>d. BackoffSleep d \<notin> set (trace (step env a s))" by auto
  from Cons.IH [OF this] show ?case by simp
qed


lemma executed_prefix:
  "qinv adds s \<Longrightarrow> executed (trace s) = take (length (executed (trace s))) adds"
  unfolding qinv_def by (metis append_eq_conv_conj)

lemma qinv_idle:
  "qinv adds s \<Longrightarrow> workers s = [] \<Longrightarrow>
   queue s = [] \<and> executed (trace s) = adds \<and> promises s = delivered (trace s)"
  unfolding qinv_def by auto

lemma qinv_workers: "qinv adds s \<Longrightarrow> length (workers s) \<le> 1"
  unfolding qinv_def by auto

lemma in_flight_length: "length (in_flight ws) \<le> length ws"
  by (induction ws rule: in_flight.induct) auto

text \<open>
  C1 (the code does otherwise): a request that throws is not run again. The closure that
  \<open>add\<close> puts into the queue catches the error of its request and rejects the caller's
  promise, so \<open>processQueue\<close> never sees an error: whatever the requests do and however
  submissions and the worker interleave, the queue never sleeps a backoff, and what it has
  run is a prefix of the submissions, each run once.
\<close>

theorem queue_never_retries:
  "BackoffSleep d \<notin> set (trace (run env acts init)) \<and>
   executed (trace (run env acts init)) =
     take (length (executed (trace (run env acts init)))) (submitted acts)"
proof
  have "\<forall>d. BackoffSleep d \<notin> set (trace (init :: 'a qstate))"
    by (simp add: init_def)
  then show "BackoffSleep d \<notin> set (trace (run env acts init))"
    by (rule no_backoff_run)
next
  show "executed (trace (run env acts init)) =
          take (length (executed (trace (run env acts init)))) (submitted acts)"
    using qinv_reachable by (rule executed_prefix)
qed

text \<open>
  Submitting A, B, C (requests 0, 1, 2) where B throws at its first invocation and would
  return at a second one: the queue runs A, B, C; B is invoked once, its promise is rejected
  with the error, and the queue is idle afterwards.
\<close>

theorem queue_never_retries_witness:
  "BackoffSleep (exponentialBackoff 2) \<notin>
     set (trace (run abc [Add 0, Add 1, Add 2, Settle 0, Settle 0, Settle 0, Settle 0,
                          Settle 0, Settle 0] init)) \<and>
   trace (run abc [Add 0, Add 1, Add 2, Settle 0, Settle 0, Settle 0, Settle 0,
                   Settle 0, Settle 0] init) =
     [Executed 0 (Returns ''a''), Executed 1 (Throws ''boom''), Executed 2 (Returns ''c'')] \<and>
   promises (run abc [Add 0, Add 1, Add 2, Settle 0, Settle 0, Settle 0, Settle 0,
                      Settle 0, Settle 0] init) =
     [Some (Returns ''a''), Some (Throws ''boom''), Some (Returns ''c'')] \<and>
   calls (run abc [Add 0, Add 1, Add 2, Settle 0, Settle 0, Settle 0, Settle 0,
                   Settle 0, Settle 0] init) 1 = 1 \<and>
   queue (run abc [Add 0, Add 1, Add 2, Settle 0, Settle 0, Settle 0, Settle 0,
                   Settle 0, Settle 0] init) = [] \<and>
   workers (run abc [Add 0, Add 1, Add 2, Settle 0, Settle 0, Settle 0, Settle 0,
                     Settle 0, Settle 0] init) = []"
  using queue_never_retries [of "exponentialBackoff 2" abc
      "[Add 0, Add 1, Add 2, Settle 0, Settle 0, Settle 0, Settle 0, Settle 0, Settle 0]"]
  by (simp add: init_def add_def processQueue_def loop_head_def invoke_def complete_def
        settle_def abc_def exponentialBackoff_def)

text \<open>
  C4: the queue runs at most one operation at a time (there is at most one activation of
  \<open>processQueue\<close>, hence at most one request in flight); what has run, what is running and
  what waits are, in this order, the requests in the order of their submission, and the
  promises settled are those of the requests that have run, each with the outcome of its
  run; and once everything awaited has settled, every submitted request has run, in the
  order of submission, whether or not an earlier one threw: none is skipped.
\<close>

theorem queue_serial_fifo:
  "(let s = run env acts init; s' = drain env s in
      length (workers s) \<le> 1 \<and> length (in_flight (workers s)) \<le> 1 \<and>
      executed (trace s) @ map thunk_request (in_flight (workers s) @ queue s) = submitted acts \<and>
      promises s = delivered (trace s) @ replicate (length (in_flight (workers s) @ queue s)) None \<and>
      workers s' = [] \<and> queue s' = [] \<and>
      executed (trace s') = submitted acts \<and> promises s' = delivered (trace s'))"
proof -
  let ?s = "run env acts init"
  have inv: "qinv (submitted acts) ?s" by (rule qinv_reachable)
  have w: "length (workers ?s) \<le> 1" using inv by (rule qinv_workers)
  have f: "length (in_flight (workers ?s)) \<le> 1"
    using w in_flight_length [of "workers ?s"] by simp
  have now: "executed (trace ?s) @ map thunk_request (in_flight (workers ?s) @ queue ?s) =
               submitted acts \<and>
             promises ?s = delivered (trace ?s) @
               replicate (length (in_flight (workers ?s) @ queue ?s)) None"
    using inv unfolding qinv_def by simp
  have idle: "workers (drain env ?s) = []" using inv by (rule drained)
  have later: "queue (drain env ?s) = [] \<and> executed (trace (drain env ?s)) = submitted acts \<and>
               promises (drain env ?s) = delivered (trace (drain env ?s))"
    using qinv_drain [OF inv] idle by (rule qinv_idle)
  from w f now idle later show ?thesis by (simp add: Let_def)
qed

text \<open>
  A, B and C again, C submitted while the worker paces after A: A has run, B and C wait in
  this order; once the queue is idle all three have run in this order, and B's failure has
  not kept C from running.
\<close>

theorem queue_serial_fifo_witness:
  "(let s = run abc [Add 0, Add 1, Settle 0, Add 2] init; s' = drain abc s in
      workers s = [AwaitRandomDelay] \<and> in_flight (workers s) = [] \<and>
      executed (trace s) = [0] \<and> map thunk_request (queue s) = [1, 2] \<and>
      promises s = [Some (Returns ''a''), None, None] \<and>
      workers s' = [] \<and> queue s' = [] \<and>
      trace s' = [Executed 0 (Returns ''a''), Executed 1 (Throws ''boom''),
                  Executed 2 (Returns ''c'')] \<and>
      promises s' = [Some (Returns ''a''), Some (Throws ''boom''), Some (Returns ''c'')])"
  using queue_serial_fifo [of abc "[Add 0, Add 1, Settle 0, Add 2]"]
  by (simp add: init_def add_def processQueue_def loop_head_def invoke_def complete_def
        settle_def abc_def drain_def numeral_eq_Suc)

section \<open>The tweet cache\<close>

lemma split_path_plain: "CHR ''/'' \<notin> set s \<Longrightarrow> split_path s = [s]"
  by (induction s) auto

lemma resolve_plain: "\<forall>c \<in> set cs. c \<noteq> [] \<and> c \<noteq> ''.'' \<and> c \<noteq> ''..'' \<Longrightarrow> resolve acc cs = rev acc @ cs"
  by (induction cs arbitrary: acc) auto

lemma written_path:
  assumes "plain conv" "CHR ''/'' \<notin> set i"
  shows "path_join dir [''../../../tweetcache'', conv, i @ ''.json''] =
           rev (tl (tl (tl (rev dir)))) @ [''tweetcache'', conv, i @ ''.json'']"
proof -
  have "split_path conv = [conv]" using assms(1) by (simp add: plain_def split_path_plain)
  moreover have "split_path (i @ ''.json'') = [i @ ''.json'']"
    using assms(2) by (simp add: split_path_plain)
  moreover have "split_path ''../../../tweetcache'' = [''..'', ''..'', ''..'', ''tweetcache'']"
    by simp
  moreover have "resolve (tl (tl (tl (rev dir)))) [''tweetcache'', conv, i @ ''.json''] =
      rev (tl (tl (tl (rev dir)))) @ [''tweetcache'', conv, i @ ''.json'']"
    by (rule resolve_plain) (use assms(1) in \<open>auto simp: plain_def\<close>)
  ultimately show ?thesis
    by (simp add: path_join_def)
qed

lemma lookup_pattern:
  assumes "CHR ''/'' \<notin> set i"
  shows "path_join dir [''tweetcache'', ''*'', i @ ''.json''] =
           resolve (rev dir) [] @ [''tweetcache'', ''*'', i @ ''.json'']"
  using assms by (simp add: path_join_def split_path_plain)

lemma filter_keys_update_file:
  "\<not> P p \<Longrightarrow> filter P (map fst (update_file p c fs)) = filter P (map fst fs)"
  by (induction fs) auto

lemma map_of_update_file: "map_of (update_file p c fs) p = Some c"
  by (induction fs) auto

lemma written_not_looked_up:
  assumes "dir \<noteq> []" "plain conv" "CHR ''/'' \<notin> set i" "CHR ''/'' \<notin> set j"
  shows "\<not> list_all2 glob_component (path_join dir [''tweetcache'', ''*'', j @ ''.json''])
            (path_join dir [''../../../tweetcache'', conv, i @ ''.json''])"
proof
  assume "list_all2 glob_component (path_join dir [''tweetcache'', ''*'', j @ ''.json''])
            (path_join dir [''../../../tweetcache'', conv, i @ ''.json''])"
  then have "length (path_join dir [''tweetcache'', ''*'', j @ ''.json'']) =
             length (path_join dir [''../../../tweetcache'', conv, i @ ''.json''])"
    by (rule list_all2_lengthD)
  moreover have "length (path_join dir [''tweetcache'', ''*'', j @ ''.json'']) = length dir + 3"
    using assms(4) by (simp add: lookup_pattern)
  moreover have "length (path_join dir [''../../../tweetcache'', conv, i @ ''.json'']) =
                 length dir - 3 + 3"
    using assms(2,3) by (simp add: written_path)
  moreover have "0 < length dir" using assms(1) by simp
  ultimately show False by arith
qed

lemma cacheTweet_ok:
  assumes "cacheTweet io dir (Some tw) s = (None, s')" "conversationId tw = Some conv"
  shows "files (disk s') =
           update_file (path_join dir [''../../../tweetcache'', conv, tid tw @ ''.json'']) tw
             (files (disk s)) \<and>
         tweetCache s' = (tweetCache s)(tid tw \<mapsto> tw)"
  using assms
  by (auto simp: cacheTweet_def mkdir_recursive_def writeFile_def Let_def
           split: option.splits sum.splits if_splits)

text \<open>
  C2 (the code does otherwise after a restart): \<open>cacheTweet\<close> writes the item under
  \<open>__dirname/../../../tweetcache\<close>, \<open>getCachedTweet\<close> looks for it under
  \<open>__dirname/tweetcache\<close>. Within one process the item comes back from the in-memory
  tier. After a restart it does not: wherever the module is (not in the root directory),
  for an item whose conversation identifier and identifier are plain names, and when the
  lookup directory held no file for the identifier before, \<open>getCachedTweet\<close> returns
  nothing after \<open>cacheTweet\<close> has succeeded.
\<close>

theorem cache_restart_misses:
  assumes "dir \<noteq> []" and "conversationId tw = Some conv" and "plain conv"
    and "CHR ''/'' \<notin> set (tid tw)"
    and "glob (path_join dir [''tweetcache'', ''*'', tid tw @ ''.json'']) (disk s) = []"
    and "cacheTweet io dir (Some tw) s = (None, s')"
  shows "fst (getCachedTweet io dir (tid tw) s') = Inr (Some tw) \<and>
         fst (getCachedTweet io dir (tid tw) (restart s')) = Inr None"
proof -
  let ?pat = "path_join dir [''tweetcache'', ''*'', tid tw @ ''.json'']"
  let ?file = "path_join dir [''../../../tweetcache'', conv, tid tw @ ''.json'']"
  from cacheTweet_ok [OF assms(6,2)]
  have fs: "files (disk s') = update_file ?file tw (files (disk s))"
    and mem: "tweetCache s' = (tweetCache s)(tid tw \<mapsto> tw)" by simp_all
  have "\<not> list_all2 glob_component ?pat ?file"
    using assms(1,3,4) by (simp add: written_not_looked_up)
  then have "glob ?pat (disk s') = glob ?pat (disk s)"
    by (simp add: glob_def fs filter_keys_update_file)
  with assms(5) have miss: "glob ?pat (disk s') = []" by simp
  have "fst (getCachedTweet io dir (tid tw) s') = Inr (Some tw)"
    by (simp add: getCachedTweet_def mem)
  moreover have "fst (getCachedTweet io dir (tid tw) (restart s')) = Inr None"
    using miss by (simp add: getCachedTweet_def restart_def)
  ultimately show ?thesis by simp
qed

text \<open>
  The module in \<open>/app/core/src/clients/twitter\<close>, the item 1 of conversation 10: the file
  is written to \<open>/app/core/tweetcache/10/1.json\<close>, the lookup after the restart globs
  \<open>/app/core/src/clients/twitter/tweetcache/*/1.json\<close> and finds nothing.
\<close>

theorem cache_restart_misses_witness:
  "module_dir \<noteq> [] \<and> conversationId tweet1 = Some ''10'' \<and> plain ''10'' \<and>
   CHR ''/'' \<notin> set (tid tweet1) \<and>
   glob (path_join module_dir [''tweetcache'', ''*'', tid tweet1 @ ''.json'']) (disk fresh_client) = [] \<and>
   fst (cacheTweet no_faults module_dir (Some tweet1) fresh_client) = None \<and>
   files (disk (snd (cacheTweet no_faults module_dir (Some tweet1) fresh_client))) =
     [([''app'', ''core'', ''tweetcache'', ''10'', ''1.json''], tweet1)] \<and>
   path_join module_dir [''tweetcache'', ''*'', ''1.json''] =
     [''app'', ''core'', ''src'', ''clients'', ''twitter'', ''tweetcache'', ''*'', ''1.json''] \<and>
   fst (getCachedTweet no_faults module_dir ''1''
          (snd (cacheTweet no_faults module_dir (Some tweet1) fresh_client))) = Inr (Some tweet1) \<and>
   fst (getCachedTweet no_faults module_dir ''1''
          (restart (snd (cacheTweet no_faults module_dir (Some tweet1) fresh_client)))) = Inr None"
proof -
  have c1: "fst (cacheTweet no_faults module_dir (Some tweet1) fresh_client) = None"
    by (simp add: cacheTweet_def mkdir_recursive_def writeFile_def path_join_def path_dirname_def
          no_faults_def module_dir_def tweet1_def fresh_client_def)
  then have c: "cacheTweet no_faults module_dir (Some tweet1) fresh_client =
      (None, snd (cacheTweet no_faults module_dir (Some tweet1) fresh_client))"
    by (simp add: prod_eq_iff)
  have g: "glob (path_join module_dir [''tweetcache'', ''*'', tid tweet1 @ ''.json''])
             (disk fresh_client) = []"
    by (simp add: glob_def fresh_client_def)
  have p: "plain ''10''" by (simp add: plain_def)
  have t: "conversationId tweet1 = Some ''10''" "CHR ''/'' \<notin> set (tid tweet1)" "tid tweet1 = ''1''"
    by (simp_all add: tweet1_def)
  have d: "module_dir \<noteq> []" by (simp add: module_dir_def)
  have f: "files (disk (snd (cacheTweet no_faults module_dir (Some tweet1) fresh_client))) =
     [([''app'', ''core'', ''tweetcache'', ''10'', ''1.json''], tweet1)]"
    by (simp add: cacheTweet_def mkdir_recursive_def writeFile_def path_join_def path_dirname_def
          no_faults_def module_dir_def fresh_client_def t)
  have j: "path_join module_dir [''tweetcache'', ''*'', ''1.json''] =
     [''app'', ''core'', ''src'', ''clients'', ''twitter'', ''tweetcache'', ''*'', ''1.json'']"
    by (simp add: path_join_def module_dir_def)
  from cache_restart_misses [OF d t(1) p t(2) g c] c1 d t p g f j show ?thesis
    by (simp add: t(3))
qed

lemma ancestors_self: "d \<in> set (ancestors d)"
  by (induction d) auto

text \<open>
  C8: for a defined item (with a conversation identifier), \<open>cacheTweet\<close> throws exactly
  the error of its durable write: that of \<open>mkdir\<close> if it fails, else that of \<open>writeFile\<close>
  if it fails. When it throws, no file has been written and the in-memory tier is
  unchanged; when it returns, the file holds the item and the in-memory tier has it.
\<close>

theorem cacheTweet_propagates_write_errors:
  assumes "conversationId tw = Some conv"
    and "P = path_join dir [''../../../tweetcache'', conv, tid tw @ ''.json'']"
  shows "fst (cacheTweet io dir (Some tw) s) =
           (case mkdir_error io (path_dirname P) of Some e \<Rightarrow> Some e | None \<Rightarrow> write_error io P) \<and>
         (fst (cacheTweet io dir (Some tw) s) = None \<longrightarrow>
            map_of (files (disk (snd (cacheTweet io dir (Some tw) s)))) P = Some tw \<and>
            tweetCache (snd (cacheTweet io dir (Some tw) s)) = (tweetCache s)(tid tw \<mapsto> tw)) \<and>
         (fst (cacheTweet io dir (Some tw) s) \<noteq> None \<longrightarrow>
            files (disk (snd (cacheTweet io dir (Some tw) s))) = files (disk s) \<and>
            tweetCache (snd (cacheTweet io dir (Some tw) s)) = tweetCache s)"
  using assms ancestors_self [of "path_dirname P"]
  by (auto simp: cacheTweet_def mkdir_recursive_def writeFile_def Let_def map_of_update_file
           split: option.splits sum.splits)

theorem cacheTweet_propagates_write_errors_witness:
  "conversationId tweet1 = Some ''10'' \<and>
   [''app'', ''core'', ''tweetcache'', ''10'', ''1.json''] =
     path_join module_dir [''../../../tweetcache'', ''10'', tid tweet1 @ ''.json''] \<and>
   fst (cacheTweet (no_faults\<lparr>write_error := (\<lambda>p. Some ''EIO'')\<rparr>) module_dir (Some tweet1)
          fresh_client) = Some ''EIO'' \<and>
   files (disk (snd (cacheTweet (no_faults\<lparr>write_error := (\<lambda>p. Some ''EIO'')\<rparr>) module_dir
                       (Some tweet1) fresh_client))) = [] \<and>
   tweetCache (snd (cacheTweet (no_faults\<lparr>write_error := (\<lambda>p. Some ''EIO'')\<rparr>) module_dir
                       (Some tweet1) fresh_client)) = Map.empty"
proof -
  have t: "conversationId tweet1 = Some ''10''" by (simp add: tweet1_def)
  have p: "[''app'', ''core'', ''tweetcache'', ''10'', ''1.json''] =
     path_join module_dir [''../../../tweetcache'', ''10'', tid tweet1 @ ''.json'']"
    by (simp add: path_join_def module_dir_def tweet1_def)
  from cacheTweet_propagates_write_errors [OF t p,
      of "no_faults\<lparr>write_error := (\<lambda>p. Some ''EIO'')\<rparr>" fresh_client] t p
  show ?thesis by (simp add: no_faults_def fresh_client_def)
qed

text \<open>
  C9: \<open>cacheTweet\<close> of an undefined or null item returns without an error, and changes
  neither the durable tier nor the in-memory tier (it logs a warning).
\<close>

theorem cacheTweet_undefined_is_noop:
  "cacheTweet io dir None s =
     (None, s\<lparr>warnings := warnings s @ [''Tweet is undefined, skipping cache'']\<rparr>) \<and>
   fst (cacheTweet io dir None s) = None \<and>
   disk (snd (cacheTweet io dir None s)) = disk s \<and>
   tweetCache (snd (cacheTweet io dir None s)) = tweetCache s"
  by (simp add: cacheTweet_def)

theorem cacheTweet_undefined_is_noop_witness:
  "fst (cacheTweet no_faults module_dir None fresh_client) = None \<and>
   files (disk (snd (cacheTweet no_faults module_dir None fresh_client))) = [] \<and>
   tweetCache (snd (cacheTweet no_faults module_dir None fresh_client)) ''1'' = None \<and>
   warnings (snd (cacheTweet no_faults module_dir None fresh_client)) =
     [''Tweet is undefined, skipping cache'']"
  using cacheTweet_undefined_is_noop [of no_faults module_dir fresh_client]
  by (simp add: fresh_client_def)

section \<open>The home timeline\<close>

lemma and_then_Inr: "and_then r f = Inr y \<longleftrightarrow> (\<exists>v. r = Inr v \<and> f v = Inr y)"
  by (cases r) (auto simp: and_then_def)


lemma nullish_total: "a \<noteq> None \<or> (\<exists>v. b = Inr v) \<Longrightarrow> \<exists>v. nullish a b = Inr v"
  by (cases a) (auto simp: nullish_def)


lemma legacy_field_total: "\<exists>v. legacy_field f t = Inr v"
  by (simp add: legacy_field_def split: option.split)

lemma legacy_user_reads: "(\<exists>v. legacy_user f t = Inr v) \<longleftrightarrow> user_path_reads t"
  by (auto simp: legacy_user_def user_path_reads_def split: option.splits)

lemma legacy_entity_reads: "(\<exists>v. legacy_entity f t = Inr v) \<longleftrightarrow> entities_path_reads t"
  by (auto simp: legacy_entity_def entities_path_reads_def split: option.splits)

lemma legacy_media_reads: "(\<exists>v. legacy_media k t = Inr v) \<longleftrightarrow> entities_path_reads t"
  by (auto simp: legacy_media_def legacy_entity_def entities_path_reads_def
           split: option.splits sum.splits)






lemma normalize_fields:
  assumes "normalize_tweet t = Inr obj"
  shows "nullish (raw_name t) (legacy_user legacy_name t) = Inr (o_name obj)"
    and "nullish (raw_username t) (legacy_user screen_name t) = Inr (o_username obj)"
    and "nullish (raw_text t) (legacy_field full_text t) = Inr (o_text obj)"
    and "nullish (raw_inReplyToStatusId t) (legacy_field in_reply_to_status_id_str t) =
           Inr (o_inReplyToStatusId obj)"
    and "nullish (raw_createdAt t) (legacy_field created_at t) = Inr (o_createdAt obj)"
    and "nullish (raw_userId t) (legacy_field user_id_str t) = Inr (o_userId obj)"
    and "nullish (raw_conversationId t) (legacy_field conversation_id_str t) =
           Inr (o_conversationId obj)"
    and "nullish (raw_hashtags t) (legacy_entity ent_hashtags t) = Inr (o_hashtags obj)"
    and "nullish (raw_mentions t) (legacy_entity user_mentions t) = Inr (o_mentions obj)"
    and "nullish (raw_urls t) (legacy_entity ent_urls t) = Inr (o_urls obj)"
    and "\<exists>p. nullish (raw_photos t) (legacy_media ''photo'' t) = Inr p \<and> o_photos obj = or_empty p"
    and "\<exists>w. nullish (raw_videos t) (legacy_media ''video'' t) = Inr w \<and> o_videos obj = or_empty w"
  using assms unfolding normalize_tweet_def and_then_Inr by auto

lemma normalizes_returns:
  assumes "normalizes t" shows "\<exists>obj. normalize_tweet t = Inr obj"
proof -
  from assms have un: "raw_name t \<noteq> None \<or> user_path_reads t"
    and uu: "raw_username t \<noteq> None \<or> user_path_reads t"
    and eh: "raw_hashtags t \<noteq> None \<or> entities_path_reads t"
    and em: "raw_mentions t \<noteq> None \<or> entities_path_reads t"
    and ep: "raw_photos t \<noteq> None \<or> entities_path_reads t"
    and eu: "raw_urls t \<noteq> None \<or> entities_path_reads t"
    and ev: "raw_videos t \<noteq> None \<or> entities_path_reads t"
    by (auto simp: normalizes_def)
  note f = nullish_total [OF disjI2, OF legacy_field_total]
  obtain n where n: "nullish (raw_name t) (legacy_user legacy_name t) = Inr n"
    using nullish_total un legacy_user_reads by metis
  obtain u where u: "nullish (raw_username t) (legacy_user screen_name t) = Inr u"
    using nullish_total uu legacy_user_reads by metis
  obtain x where x: "nullish (raw_text t) (legacy_field full_text t) = Inr x" using f by blast
  obtain r where r: "nullish (raw_inReplyToStatusId t) (legacy_field in_reply_to_status_id_str t) = Inr r"
    using f by blast
  obtain c where c: "nullish (raw_createdAt t) (legacy_field created_at t) = Inr c" using f by blast
  obtain i where i: "nullish (raw_userId t) (legacy_field user_id_str t) = Inr i" using f by blast
  obtain v where v: "nullish (raw_conversationId t) (legacy_field conversation_id_str t) = Inr v"
    using f by blast
  obtain h where h: "nullish (raw_hashtags t) (legacy_entity ent_hashtags t) = Inr h"
    using nullish_total eh legacy_entity_reads by metis
  obtain m where m: "nullish (raw_mentions t) (legacy_entity user_mentions t) = Inr m"
    using nullish_total em legacy_entity_reads by metis
  obtain p where p: "nullish (raw_photos t) (legacy_media ''photo'' t) = Inr p"
    using nullish_total ep legacy_media_reads by metis
  obtain l where l: "nullish (raw_urls t) (legacy_entity ent_urls t) = Inr l"
    using nullish_total eu legacy_entity_reads by metis
  obtain w where w: "nullish (raw_videos t) (legacy_media ''video'' t) = Inr w"
    using nullish_total ev legacy_media_reads by metis
  show ?thesis
    by (simp add: normalize_tweet_def n u x r c i v h m p l w and_then_def)
qed

lemma nullish_needs: "nullish a b = Inr v \<Longrightarrow> a \<noteq> None \<or> (\<exists>w. b = Inr w)"
  by (cases a) (auto simp: nullish_def)

lemma returns_normalizes:
  assumes "normalize_tweet t = Inr obj" shows "normalizes t"
proof -
  note f = normalize_fields [OF assms]
  have "raw_name t \<noteq> None \<or> user_path_reads t"
    using nullish_needs [OF f(1)] legacy_user_reads by blast
  moreover have "raw_username t \<noteq> None \<or> user_path_reads t"
    using nullish_needs [OF f(2)] legacy_user_reads by blast
  moreover have "raw_hashtags t \<noteq> None \<or> entities_path_reads t"
    using nullish_needs [OF f(8)] legacy_entity_reads by blast
  moreover have "raw_mentions t \<noteq> None \<or> entities_path_reads t"
    using nullish_needs [OF f(9)] legacy_entity_reads by blast
  moreover have "raw_urls t \<noteq> None \<or> entities_path_reads t"
    using nullish_needs [OF f(10)] legacy_entity_reads by blast
  moreover have "raw_photos t \<noteq> None \<or> entities_path_reads t"
    using f(11) nullish_needs legacy_media_reads by blast
  moreover have "raw_videos t \<noteq> None \<or> entities_path_reads t"
    using f(12) nullish_needs legacy_media_reads by blast
  ultimately show ?thesis by (auto simp: normalizes_def)
qed

lemma normalize_returns_iff: "(\<exists>obj. normalize_tweet t = Inr obj) \<longleftrightarrow> normalizes t"
  using normalizes_returns returns_normalizes by blast














lemma normalize_nested_entry:
  "normalize_tweet nested_entry =
     Inr \<lparr>o_id = Some ''7'', o_name = Some ''Old Name'', o_username = Some ''old'',
          o_text = Some ''nested text'', o_inReplyToStatusId = Some ''5'',
          o_createdAt = Some ''Mon'', o_userId = Some ''42'', o_conversationId = Some ''6'',
          o_hashtags = Some [''tag''], o_mentions = Some [''bob''],
          o_photos = [\<lparr>media_type = ''photo'', media_url = ''p''\<rparr>], o_thread = [],
          o_urls = Some [''https://x.test''],
          o_videos = [\<lparr>media_type = ''video'', media_url = ''v''\<rparr>]\<rparr>"
  by (simp add: normalize_tweet_def and_then_def nullish_def legacy_field_def legacy_entity_def
        legacy_user_def legacy_media_def or_empty_def nested_entry_def)


lemma normalize_flat_entry:
  "normalize_tweet flat_entry =
     Inr \<lparr>o_id = Some ''8'', o_name = Some ''Carol'', o_username = Some ''carol'',
          o_text = Some ''flat only'', o_inReplyToStatusId = Some ''3'',
          o_createdAt = Some ''Tue'', o_userId = Some ''43'', o_conversationId = Some ''4'',
          o_hashtags = Some [''h''], o_mentions = Some [], o_photos = [], o_thread = [],
          o_urls = Some [], o_videos = []\<rparr>"
  by (simp add: normalize_tweet_def and_then_def nullish_def or_empty_def flat_entry_def)

lemma normalize_restricted_entry: "normalize_tweet restricted_entry = Inl ''TypeError''"
  by (simp add: normalize_tweet_def and_then_def nullish_def legacy_field_def legacy_entity_def
        legacy_user_def legacy_media_def or_empty_def restricted_entry_def nested_entry_def
        unreadable_legacy_def)

lemma normalize_unrestricted_entry:
  "normalize_tweet (restricted_entry\<lparr>typename := Some ''Tweet''\<rparr>) = Inl ''TypeError''"
  by (simp add: normalize_tweet_def and_then_def nullish_def legacy_field_def legacy_entity_def
        legacy_user_def legacy_media_def or_empty_def restricted_entry_def nested_entry_def
        unreadable_legacy_def)


lemma map_result_Inr: "map_result f xs = Inr ys \<longleftrightarrow> list_all2 (\<lambda>x y. f x = Inr y) xs ys"
  by (induction xs arbitrary: ys) (auto simp: and_then_Inr list_all2_Cons1)

lemma map_result_returns:
  "(\<exists>ys. map_result f xs = Inr ys) \<longleftrightarrow> (\<forall>x \<in> set xs. \<exists>y. f x = Inr y)"
proof (induction xs)
  case Nil
  then show ?case by simp
next
  case (Cons x xs)
  then show ?case by (cases "f x"; cases "map_result f xs") (auto simp: and_then_def)
qed

text \<open>
  C10: when \<open>fetchHomeTimeline\<close> returns, its items are, in order, the normalised raw
  entries whose \<open>__typename\<close> is not \<open>TweetWithVisibilityResults\<close>, so the list is shorter
  than the raw response by the number of restricted entries. These are dropped before
  normalisation: whether the function returns depends on the other entries only (it
  returns exactly when each of them can be normalised), so a restricted entry that could
  not be normalised is dropped silently. An error of the remote call is thrown on.
\<close>

theorem home_timeline_drops_restricted:
  "(fetchHomeTimeline client count = Inr objs \<longrightarrow>
      (\<exists>raws. client count = Inr raws \<and>
         list_all2 (\<lambda>r obj. typename r \<noteq> Some ''TweetWithVisibilityResults'' \<and>
                            normalize_tweet r = Inr obj)
           (filter (\<lambda>r. typename r \<noteq> Some ''TweetWithVisibilityResults'') raws) objs \<and>
         length objs + length (filter (\<lambda>r. typename r = Some ''TweetWithVisibilityResults'') raws) =
           length raws)) \<and>
   (client count = Inr raws \<longrightarrow>
      ((\<exists>objs. fetchHomeTimeline client count = Inr objs) \<longleftrightarrow>
       (\<forall>r \<in> set raws. typename r \<noteq> Some ''TweetWithVisibilityResults'' \<longrightarrow> normalizes r))) \<and>
   (client count = Inl e \<longrightarrow> fetchHomeTimeline client count = Inl e)"
proof (intro conjI impI)
  let ?keep = "\<lambda>r. typename r \<noteq> Some ''TweetWithVisibilityResults''"
  assume a: "fetchHomeTimeline client count = Inr objs"
  then obtain raws where raws: "client count = Inr raws"
    and m: "map_result normalize_tweet (filter ?keep raws) = Inr objs"
    by (auto simp: fetchHomeTimeline_def and_then_Inr)
  from m have l: "list_all2 (\<lambda>r obj. normalize_tweet r = Inr obj) (filter ?keep raws) objs"
    by (simp add: map_result_Inr)
  have "list_all2 (\<lambda>r obj. ?keep r \<and> normalize_tweet r = Inr obj) (filter ?keep raws) objs"
    using l by (rule list.rel_mono_strong) simp
  moreover have "length objs = length (filter ?keep raws)"
    using l by (simp add: list_all2_lengthD)
  then have "length objs + length (filter (\<lambda>r. typename r = Some ''TweetWithVisibilityResults'') raws) =
             length raws"
    using sum_length_filter_compl [of ?keep raws] by simp
  ultimately show "\<exists>raws. client count = Inr raws \<and>
         list_all2 (\<lambda>r obj. typename r \<noteq> Some ''TweetWithVisibilityResults'' \<and>
                            normalize_tweet r = Inr obj)
           (filter (\<lambda>r. typename r \<noteq> Some ''TweetWithVisibilityResults'') raws) objs \<and>
         length objs + length (filter (\<lambda>r. typename r = Some ''TweetWithVisibilityResults'') raws) =
           length raws"
    using raws by blast
next
  assume c: "client count = Inr raws"
  show "(\<exists>objs. fetchHomeTimeline client count = Inr objs) \<longleftrightarrow>
        (\<forall>r \<in> set raws. typename r \<noteq> Some ''TweetWithVisibilityResults'' \<longrightarrow> normalizes r)"
    using map_result_returns [of normalize_tweet
        "filter (\<lambda>r. typename r \<noteq> Some ''TweetWithVisibilityResults'') raws"]
    by (auto simp: fetchHomeTimeline_def and_then_def c normalize_returns_iff)
next
  assume "client count = Inl e"
  then show "fetchHomeTimeline client count = Inl e"
    by (simp add: fetchHomeTimeline_def and_then_def)
qed

text \<open>
  Of three raw entries the second is restricted and could not be normalised: two items
  are returned. The same entry without the restriction makes the function throw.
\<close>

theorem home_timeline_drops_restricted_witness:
  "typename restricted_entry = Some ''TweetWithVisibilityResults'' \<and>
   \<not> normalizes restricted_entry \<and>
   normalize_tweet restricted_entry = Inl ''TypeError'' \<and>
   normalizes both_entry \<and> normalizes nested_entry \<and>
   (\<exists>a b. fetchHomeTimeline (\<lambda>n. Inr [both_entry, restricted_entry, nested_entry]) 20 = Inr [a, b] \<and>
          normalize_tweet both_entry = Inr a \<and> normalize_tweet nested_entry = Inr b) \<and>
   fetchHomeTimeline (\<lambda>n. Inr [nested_entry, restricted_entry\<lparr>typename := Some ''Tweet''\<rparr>]) 20 =
     Inl ''TypeError'' \<and>
   fetchHomeTimeline (\<lambda>n. Inl ''rate limited'') 20 = Inl ''rate limited''"
proof -
  let ?raws = "[both_entry, restricted_entry, nested_entry]"
  have n: "\<not> normalizes restricted_entry" "normalizes both_entry" "normalizes nested_entry"
    by (simp_all add: normalizes_def user_path_reads_def entities_path_reads_def both_entry_def
          nested_entry_def restricted_entry_def unreadable_legacy_def)
  have v: "typename both_entry \<noteq> Some ''TweetWithVisibilityResults''"
    "typename restricted_entry = Some ''TweetWithVisibilityResults''"
    "typename nested_entry \<noteq> Some ''TweetWithVisibilityResults''"
    by (simp_all add: both_entry_def restricted_entry_def nested_entry_def)
  from home_timeline_drops_restricted [of "\<lambda>n. Inr ?raws" 20 _ ?raws] n v
  obtain objs where o: "fetchHomeTimeline (\<lambda>n. Inr ?raws) 20 = Inr objs" by auto
  from home_timeline_drops_restricted [of "\<lambda>n. Inr ?raws" 20 objs] o v
  have "list_all2 (\<lambda>r obj. typename r \<noteq> Some ''TweetWithVisibilityResults'' \<and>
                         normalize_tweet r = Inr obj) [both_entry, nested_entry] objs"
    by auto
  then obtain a b where "objs = [a, b]" "normalize_tweet both_entry = Inr a"
    "normalize_tweet nested_entry = Inr b"
    by (auto simp: list_all2_Cons1)
  with o have two: "\<exists>a b. fetchHomeTimeline (\<lambda>n. Inr ?raws) 20 = Inr [a, b] \<and>
          normalize_tweet both_entry = Inr a \<and> normalize_tweet nested_entry = Inr b" by blast
  have bad: "fetchHomeTimeline (\<lambda>n. Inr [nested_entry, restricted_entry\<lparr>typename := Some ''Tweet''\<rparr>]) 20 =
     Inl ''TypeError''"
    by (simp add: fetchHomeTimeline_def and_then_def normalize_nested_entry v
          normalize_unrestricted_entry)
  have err: "fetchHomeTimeline (\<lambda>n. Inl ''rate limited'') 20 = Inl ''rate limited''"
    by (simp add: fetchHomeTimeline_def and_then_def)
  from n v two bad err show ?thesis by (simp add: normalize_restricted_entry)
qed

section \<open>Reconciliation\<close>

lemma getMemoriesByRoomIds_subset: "set (getMemoriesByRoomIds agent rooms store) \<subseteq> set store"
  by (auto simp: getMemoriesByRoomIds_def)

text \<open>
  C3 (the code does otherwise): \<open>populateTimeline\<close> decides whether a snapshot item is
  ingested by looking for the item's raw identifier among the identifiers of the stored
  records, which are derived keys (\<open>stringToUuid(id + "-" + agentId)\<close>). Whenever no
  stored record has a raw snapshot identifier as its identifier, the snapshot is not
  consulted: the pass is the one of a client without snapshot, which fetches from the
  remote search and writes what it finds.
\<close>

theorem snapshot_not_consulted:
  assumes "\<forall>m \<in> set store. \<forall>t \<in> set cachedResults. m_id m \<noteq> tid t"
  shows "populateTimeline uuid agent me (Some cachedResults) search store =
           populateTimeline uuid agent me None search store"
proof -
  let ?existing = "getMemoriesByRoomIds agent
       (map (\<lambda>tweet. uuid (js_string (conversationId tweet) @ ''-'' @ agent)) cachedResults) store"
  have "\<not> list_ex (\<lambda>tweet. tid tweet \<in> set (map m_id ?existing)) cachedResults"
    using assms getMemoriesByRoomIds_subset [of agent _ store]
    by (fastforce simp: list_ex_iff)
  then show ?thesis
    by (simp add: populateTimeline_def Let_def)
qed

text \<open>
  The snapshot holds the items 1 and 2, the record of item 1 is in the store under its
  derived key, and the search returns the items 1 and 2: a record is created for item 1
  again, and one for item 2.
\<close>

theorem snapshot_not_consulted_witness:
  "m_id ingested1 = sample_uuid ''1-agent'' \<and> m_id ingested1 \<noteq> tid tweet1 \<and>
   m_id ingested1 \<noteq> tid tweet2 \<and>
   populateTimeline sample_uuid ''agent'' ''u0'' (Some [tweet1, tweet2]) [tweet1, tweet2] [ingested1] =
     ([ingested1, ingested1, tweet_memory sample_uuid ''agent'' ''u0'' [] tweet2],
      Some [tweet1, tweet2])"
proof -
  have i: "m_id ingested1 = sample_uuid ''1-agent''" "m_id ingested1 \<noteq> tid tweet1"
    "m_id ingested1 \<noteq> tid tweet2"
    by (simp_all add: ingested1_def tweet_memory_def tweet1_def tweet2_def sample_uuid_def)
  then have h: "\<forall>m \<in> set [ingested1]. \<forall>t \<in> set [tweet1, tweet2]. m_id m \<noteq> tid t"
    by simp
  have "populateTimeline sample_uuid ''agent'' ''u0'' None [tweet1, tweet2] [ingested1] =
     ([ingested1, ingested1, tweet_memory sample_uuid ''agent'' ''u0'' [] tweet2],
      Some [tweet1, tweet2])"
    by (simp add: populateTimeline_def populate_from_search_def getMemoriesByRoomIds_def
          createMemory_def ingested1_def tweet_memory_def tweet1_def tweet2_def sample_uuid_def)
  with snapshot_not_consulted [OF h, of sample_uuid "''agent''" "''u0''" "[tweet1, tweet2]"] i
  show ?thesis by simp
qed

section \<open>What the promise of a submitted request delivers\<close>

lemma trace_step_env:
  "trace (step env a s) = trace s \<or> (\<exists>r n. trace (step env a s) = trace s @ [Executed r (env r n)])"
proof (cases a)
  case (Add r)
  then show ?thesis by (simp add: trace_add)
next
  case (Settle i)
  show ?thesis
  proof (cases "i < length (workers s)")
    case False
    with Settle show ?thesis by simp
  next
    case True
    show ?thesis
    proof (cases "workers s ! i")
      case (AwaitRequest t n)
      with Settle True show ?thesis
        by (auto simp add: resume_request trace_settle simp del: resume.simps)
    next
      case AwaitBackoff
      with Settle True show ?thesis by simp
    next
      case AwaitRandomDelay
      with Settle True show ?thesis
        by (simp add: loop_head_def invoke_def Let_def split: list.split)
    qed
  qed
qed

lemma trace_run_env:
  "\<exists>es. trace (run env acts s) = trace s @ es \<and> (\<forall>e \<in> set es. \<exists>r n. e = Executed r (env r n))"
proof (induction acts arbitrary: s)
  case Nil
  then show ?case by simp
next
  case (Cons a acts)
  from Cons.IH [of "step env a s"] obtain es where
    es: "trace (run env acts (step env a s)) = trace (step env a s) @ es"
        "\<forall>e \<in> set es. \<exists>r n. e = Executed r (env r n)" by blast
  from trace_step_env [of env a s] show ?case
  proof
    assume "trace (step env a s) = trace s"
    with es show ?thesis by auto
  next
    assume "\<exists>r n. trace (step env a s) = trace s @ [Executed r (env r n)]"
    then obtain r n where "trace (step env a s) = trace s @ [Executed r (env r n)]" by blast
    with es have "trace (run env (a # acts) s) = trace s @ (Executed r (env r n) # es)" by simp
    moreover have "\<forall>e \<in> set (Executed r (env r n) # es). \<exists>r n. e = Executed r (env r n)"
      using es(2) by auto
    ultimately show ?thesis by blast
  qed
qed

lemma in_flight_append: "in_flight (ws @ vs) = in_flight ws @ in_flight vs"
  by (induction ws rule: in_flight.induct) auto

lemma add_pending: "in_flight (workers (add r s)) @ queue (add r s) \<noteq> []"
  by (auto simp: add_def processQueue_def loop_head_def invoke_def Let_def in_flight_append
           split: list.splits)

lemma qinv_promises_length: "qinv adds s \<Longrightarrow> length (promises s) = length adds"
  unfolding qinv_def by (metis length_append length_delivered length_map length_replicate)

lemma await_add_settles:
  assumes inv: "qinv adds s" and beh: "\<forall>n. env r n = out"
  shows "await_add env r s = Some out"
proof -
  let ?s1 = "add r s"
  let ?s2 = "drain env ?s1"
  have inv1: "qinv (adds @ [r]) ?s1" using inv by (rule qinv_add)
  have inv2: "qinv (adds @ [r]) ?s2" using inv1 by (rule qinv_drain)
  have idle: "workers ?s2 = []" using inv1 by (rule drained)
  from qinv_idle [OF inv2 idle]
  have ex2: "executed (trace ?s2) = adds @ [r]" and pr2: "promises ?s2 = delivered (trace ?s2)"
    by simp_all
  from inv1 have ex1: "executed (trace ?s1) @
      map thunk_request (in_flight (workers ?s1) @ queue ?s1) = adds @ [r]"
    unfolding qinv_def by simp
  obtain es where es: "trace ?s2 = trace ?s1 @ es"
    and env: "\<forall>e \<in> set es. \<exists>r n. e = Executed r (env r n)"
    unfolding drain_def using trace_run_env by blast
  have "length (executed (trace ?s1)) < length (adds @ [r])"
    using ex1 add_pending [of r s]
    by (metis append_self_conv length_append length_greater_0_conv less_add_same_cancel1 map_is_Nil_conv)
  then have "es \<noteq> []" using ex2 es by auto
  then obtain es' e where snoc: "es = es' @ [e]" by (metis rev_exhaust)
  with env obtain r' n where e: "e = Executed r' (env r' n)" by auto
  from ex2 es snoc e have "executed (trace ?s1 @ es') @ [r'] = adds @ [r]"
    by (simp add: executed_append)
  then have r': "r' = r" and pre: "executed (trace ?s1 @ es') = adds" by simp_all
  have "promises ?s2 = delivered (trace ?s1 @ es') @ [Some out]"
    using pr2 es snoc e r' beh by (simp add: delivered_append)
  moreover have "length (delivered (trace ?s1 @ es')) = length (promises s)"
    using pre qinv_promises_length [OF inv] by (simp add: length_delivered)
  ultimately show ?thesis
    by (simp add: await_add_def nth_append)
qed

section \<open>Search\<close>

lemma await_add_reachable:
  "await_add (others(r := \<lambda>n. out)) r (run env acts init) = Some out"
  by (rule await_add_settles [OF qinv_reachable]) simp

lemma fetchSearchTweets_result:
  "fetchSearchTweets others r remote (run env acts init) =
     Some (Inr (case race remote of
                  Returns (Some v) \<Rightarrow> v
                | Returns None \<Rightarrow> empty_response
                | Throws e \<Rightarrow> empty_response))"
  by (simp add: fetchSearchTweets_def await_add_reachable split: outcome.split option.split)

text \<open>
  C6: whatever the state of the queue, \<open>fetchSearchTweets\<close> returns a response and never
  throws; the response is empty when the timer settles before the remote call, when the
  remote call throws, and when it yields nothing; otherwise it is the remote response.
\<close>

theorem fetchSearchTweets_never_raises:
  "(\<exists>resp. fetchSearchTweets others r remote (run env acts init) = Some (Inr resp)) \<and>
   (remote = TimerFirst \<longrightarrow>
      fetchSearchTweets others r remote (run env acts init) = Some (Inr empty_response)) \<and>
   (remote = SettlesFirst (Throws e) \<longrightarrow>
      fetchSearchTweets others r remote (run env acts init) = Some (Inr empty_response)) \<and>
   (remote = SettlesFirst (Returns None) \<longrightarrow>
      fetchSearchTweets others r remote (run env acts init) = Some (Inr empty_response)) \<and>
   (remote = SettlesFirst (Returns (Some v)) \<longrightarrow>
      fetchSearchTweets others r remote (run env acts init) = Some (Inr v))"
  by (simp add: fetchSearchTweets_result race_def)

theorem fetchSearchTweets_never_raises_witness:
  "fetchSearchTweets busy 7 TimerFirst (run busy [Add 0, Add 1, Settle 0] init) =
     Some (Inr empty_response) \<and>
   fetchSearchTweets busy 7 (SettlesFirst (Throws ''429'')) (run busy [Add 0, Add 1, Settle 0] init) =
     Some (Inr empty_response) \<and>
   fetchSearchTweets busy 7 (SettlesFirst (Returns (Some \<lparr>tweets = [tweet1], next_cursor = None\<rparr>)))
     (run busy [Add 0, Add 1, Settle 0] init) = Some (Inr \<lparr>tweets = [tweet1], next_cursor = None\<rparr>)"
  using
    fetchSearchTweets_never_raises [of busy 7 TimerFirst busy "[Add 0, Add 1, Settle 0]"]
    fetchSearchTweets_never_raises [of busy 7 "SettlesFirst (Throws ''429'')" busy
      "[Add 0, Add 1, Settle 0]" "''429''"]
    fetchSearchTweets_never_raises [of busy 7
      "SettlesFirst (Returns (Some \<lparr>tweets = [tweet1], next_cursor = None\<rparr>))" busy
      "[Add 0, Add 1, Settle 0]" _ "\<lparr>tweets = [tweet1], next_cursor = None\<rparr>"]
  by simp

section \<open>Bootstrap\<close>

text \<open>
  C7: when the remote call that resolves the account identifier throws, or yields no
  identifier (none, or an empty one), the initialisation ends: the remote call has been
  made once, the last thing logged is the failure, \<open>populateTimeline\<close> and \<open>onReady\<close>
  are not called, no signal is emitted and \<open>twitterUserId\<close> stays unset.
\<close>

theorem identity_failure_is_terminal:
  assumes "remote = Throws e \<or> remote = Returns None \<or> remote = Returns (Some [])"
  shows "\<exists>evs. resolve_identity others r remote populate ready (run env acts init) = Some (None, evs) \<and>
           count_list evs GetUserIdByScreenName = 1 \<and>
           last evs = LogError ''Failed to get user ID'' \<and>
           PopulateTimeline \<notin> set evs \<and> OnReady \<notin> set evs \<and>
           (\<forall>x. Emit x \<notin> set evs)"
  using assms
  by (auto simp: resolve_identity_def get_user_id_def await_add_reachable truthy_def)

theorem identity_failure_is_terminal_witness:
  "resolve_identity quiet 3 (Throws ''timeout'') (Returns ()) (Returns ())
      (run quiet [Add 0, Settle 0] init) =
     Some (None, [GetUserIdByScreenName, LogError ''Error getting user ID:'',
                  LogError ''Failed to get user ID'']) \<and>
   resolve_identity quiet 3 (Returns None) (Returns ()) (Returns ())
      (run quiet [Add 0, Settle 0] init) =
     Some (None, [GetUserIdByScreenName, LogError ''Failed to get user ID'']) \<and>
   resolve_identity quiet 3 (Returns (Some ''44196397'')) (Returns ()) (Returns ())
      (run quiet [Add 0, Settle 0] init) =
     Some (Some ''44196397'',
           [GetUserIdByScreenName, LogInfo ''Twitter user ID:'', PopulateTimeline, OnReady])"
proof -
  have a: "Throws ''timeout'' = Throws ''timeout'' \<or> Throws ''timeout'' = Returns None \<or>
           (Throws ''timeout'' :: string option outcome) = Returns (Some [])" by simp
  from identity_failure_is_terminal [OF a, of quiet 3 "Returns ()" "Returns ()" quiet "[Add 0, Settle 0]"]
  obtain evs where "resolve_identity quiet 3 (Throws ''timeout'') (Returns ()) (Returns ())
      (run quiet [Add 0, Settle 0] init) = Some (None, evs)" by blast
  then show ?thesis
    by (simp add: resolve_identity_def get_user_id_def await_add_reachable truthy_def
             del: run.simps)
qed

end
